theory Spec2Isabelle
  imports Complex_Main "HOL-Library.Sublist"
begin

section \<open>JavaScript values\<close>

text \<open>
  The front end moves JSON data between the extraction service, React component state and
  the persistence endpoint. TypeScript's casts (\<open>as string\<close>, \<open>as number\<close>) vanish at run
  time, so the values are modelled as JavaScript has them: a number is NaN, an infinity or
  a finite value (a finite double is taken as the real number it denotes; rounding is not
  modelled), an array is a list whose slots may be holes (\<open>None\<close>), and an object is a
  finite map from property names to values.
\<close>

datatype jsnum = NaN | PosInf | NegInf | Fin real

datatype jsval =
    JUndefined
  | JNull
  | JBool bool
  | JNum jsnum
  | JStr string
  | JArr "jsval option list"
  | JObj "string \<Rightarrow> jsval option"

type_synonym obj = "string \<Rightarrow> jsval option"
type_synonym array = "jsval option list"

text \<open>
  \<open>TypeError\<close> is the exception of a read or call on a value that does not support it.
  \<open>Unmodelled\<close> marks two renderings left out of the model: a length that would be
  compared through ToNumber (see \<open>items_section\<close>) and a message that is no text (see
  \<open>render\<close>).
\<close>

datatype error = TypeError | Unmodelled

text \<open>ToBoolean: the falsy values are undefined, null, false, NaN, 0 and the empty string.\<close>

fun truthy :: "jsval \<Rightarrow> bool" where
  "truthy JUndefined = False"
| "truthy JNull = False"
| "truthy (JBool b) = b"
| "truthy (JNum n) = (n \<noteq> NaN \<and> n \<noteq> Fin 0)"
| "truthy (JStr s) = (s \<noteq> [])"
| "truthy (JArr xs) = True"
| "truthy (JObj m) = True"

text \<open>\<open>a || b\<close>\<close>

definition js_or :: "jsval \<Rightarrow> jsval \<Rightarrow> jsval" where
  "js_or a b = (if truthy a then a else b)"

text \<open>
  \<open>o.k\<close> on an object: the value stored under \<open>k\<close>, or undefined when the property is
  absent.
\<close>

definition field :: "obj \<Rightarrow> string \<Rightarrow> jsval" where
  "field m k = (case m k of None \<Rightarrow> JUndefined | Some v \<Rightarrow> v)"

text \<open>
  \<open>v.k\<close> on a value that is neither undefined nor null (on those the read throws; every
  use below is on a value already tested truthy). None of the property names read in
  this development exists on a primitive or on an array, so the read is undefined there.
\<close>

definition js_prop :: "jsval \<Rightarrow> string \<Rightarrow> jsval" where
  "js_prop v k = (case v of JObj m \<Rightarrow> field m k | _ \<Rightarrow> JUndefined)"

text \<open>\<open>typeof v === 'object'\<close>\<close>

fun typeof_object :: "jsval \<Rightarrow> bool" where
  "typeof_object (JObj m) = True"
| "typeof_object (JArr xs) = True"
| "typeof_object JNull = True"
| "typeof_object v = False"

text \<open>
  \<open>k in v\<close> for a value with \<open>typeof v === 'object'\<close> that is not null; the name asked
  for below (\<open>ocrData\<close>) is no array property.
\<close>

fun js_in :: "string \<Rightarrow> jsval \<Rightarrow> bool" where
  "js_in k (JObj m) = (m k \<noteq> None)"
| "js_in k v = False"

text \<open>\<open>xs[i]\<close> on an array: undefined on a hole and beyond the end.\<close>

definition index_get :: "array \<Rightarrow> nat \<Rightarrow> jsval" where
  "index_get xs i =
     (if i < length xs then (case xs ! i of None \<Rightarrow> JUndefined | Some v \<Rightarrow> v)
      else JUndefined)"

section \<open>Arrays and object spreads\<close>

text \<open>\<open>String(n)\<close> for an array index or a length: the decimal digits.\<close>

fun dec :: "nat \<Rightarrow> string" where
  "dec n = (if n < 10 then [char_of (48 + n)] else dec (n div 10) @ [char_of (48 + n mod 10)])"

declare dec.simps [simp del]

text \<open>
  \<open>[...v]\<close>: an array is copied with its holes read as undefined, a string yields its
  characters, and any other value is not iterable.
\<close>

fun spread_iter :: "jsval \<Rightarrow> error + array" where
  "spread_iter (JArr xs) =
     Inr (map (\<lambda>s. Some (case s of None \<Rightarrow> JUndefined | Some v \<Rightarrow> v)) xs)"
| "spread_iter (JStr s) = Inr (map (\<lambda>c. Some (JStr [c])) s)"
| "spread_iter v = Inl TypeError"

text \<open>The own enumerable properties of an array or string: its elements under their indices.\<close>

definition indexed :: "array \<Rightarrow> obj" where
  "indexed xs k =
     (case map_of (zip (map dec [0..<length xs]) xs) k of None \<Rightarrow> None | Some s \<Rightarrow> s)"

text \<open>\<open>{...v}\<close>: the own properties of \<open>v\<close>; undefined, null, booleans and numbers have none.\<close>

fun spread_obj :: "jsval \<Rightarrow> obj" where
  "spread_obj (JObj m) = m"
| "spread_obj (JArr xs) = indexed xs"
| "spread_obj (JStr s) = indexed (map (\<lambda>c. Some (JStr [c])) s)"
| "spread_obj v = Map.empty"

text \<open>\<open>xs[i] = v\<close>: beyond the end the array grows, the slots in between being holes.\<close>

definition assign_index :: "array \<Rightarrow> nat \<Rightarrow> jsval \<Rightarrow> array" where
  "assign_index xs i v =
     (if i < length xs then xs[i := Some v]
      else xs @ replicate (i - length xs) None @ [Some v])"

text \<open>
  \<open>xs.filter((_, i) => i !== index)\<close>, from position \<open>i\<close> on: \<open>filter\<close> does not
  visit holes, so they are dropped as well.
\<close>

fun filter_index :: "nat \<Rightarrow> nat \<Rightarrow> array \<Rightarrow> array" where
  "filter_index i index [] = []"
| "filter_index i index (s # xs) =
     (if s \<noteq> None \<and> i \<noteq> index then s # filter_index (Suc i) index xs
      else filter_index (Suc i) index xs)"

section \<open>parseFloat\<close>

text \<open>
  \<open>parseFloat\<close> skips leading white space (here: that of the ASCII range) and reads the
  longest prefix that is a decimal literal: an optional sign, then \<open>Infinity\<close> or digits
  with an optional fraction and an optional exponent. With no such prefix the result is
  NaN. The value is the number the literal denotes (its rounding to a double is not
  modelled).
\<close>

definition is_ws :: "char \<Rightarrow> bool" where
  "is_ws c = (c \<in> set [CHR '' '', CHR 0x09, CHR 0x0A, CHR 0x0B, CHR 0x0C, CHR 0x0D])"

definition is_digit :: "char \<Rightarrow> bool" where
  "is_digit c = (c \<in> set ''0123456789'')"

definition digits_val :: "string \<Rightarrow> nat" where
  "digits_val ds = foldl (\<lambda>a c. 10 * a + (of_char c - 48)) 0 ds"

definition scale10 :: "real \<Rightarrow> int \<Rightarrow> real" where
  "scale10 x e = (if 0 \<le> e then x * 10 ^ nat e else x / 10 ^ nat (- e))"

text \<open>The exponent part, when one follows the mantissa: \<open>e\<close> or \<open>E\<close>, a sign, digits.\<close>

definition exponent :: "string \<Rightarrow> int" where
  "exponent r =
     (case r of
        [] \<Rightarrow> 0
      | c # r1 \<Rightarrow>
          if c = CHR ''e'' \<or> c = CHR ''E'' then
            (case r1 of
               [] \<Rightarrow> 0
             | s # r2 \<Rightarrow>
                 if s = CHR ''-'' then - int (digits_val (takeWhile is_digit r2))
                 else if s = CHR ''+'' then int (digits_val (takeWhile is_digit r2))
                 else int (digits_val (takeWhile is_digit r1)))
          else 0)"

definition unsigned_literal :: "string \<Rightarrow> jsnum" where
  "unsigned_literal t =
     (if take 8 t = ''Infinity'' then PosInf
      else
        let ip = takeWhile is_digit t;
            r1 = dropWhile is_digit t;
            fp = (case r1 of c # r \<Rightarrow> if c = CHR ''.'' then takeWhile is_digit r else []
                  | [] \<Rightarrow> []);
            r2 = (case r1 of c # r \<Rightarrow> if c = CHR ''.'' then dropWhile is_digit r else r1
                  | [] \<Rightarrow> [])
        in if ip = [] \<and> fp = [] then NaN
           else Fin (scale10 (real (digits_val (ip @ fp))) (exponent r2 - int (length fp))))"

fun negate :: "jsnum \<Rightarrow> jsnum" where
  "negate NaN = NaN"
| "negate PosInf = NegInf"
| "negate NegInf = PosInf"
| "negate (Fin x) = Fin (- x)"

definition parseFloat :: "string \<Rightarrow> jsnum" where
  "parseFloat s =
     (case dropWhile is_ws s of
        [] \<Rightarrow> NaN
      | c # t \<Rightarrow>
          if c = CHR ''-'' then negate (unsigned_literal t)
          else if c = CHR ''+'' then unsigned_literal t
          else unsigned_literal (c # t))"

section \<open>The clock\<close>

text \<open>
  \<open>new Date().toISOString().split('T')[0]\<close>: the clock is the ISO-8601 rendering of the
  current instant (\<open>toISOString\<close> renders it in UTC, as in
  \<open>2024-05-17T19:30:00.000Z\<close>); the date is the text before the first \<open>T\<close>.
\<close>

definition iso_date :: "string \<Rightarrow> string" where
  "iso_date now_iso = takeWhile (\<lambda>c. c \<noteq> CHR ''T'') now_iso"

section \<open>Collaborators: the query cache, toasts and the HTTP client\<close>

text \<open>
  The query client caches one entry per query key. \<open>invalidateQueries({queryKey: k})\<close>
  marks every cached query whose key starts with \<open>k\<close>, so that it is fetched again on
  its next read.
\<close>

record query =
  queryKey :: "jsval list"
  isInvalidated :: bool

definition invalidateQueries :: "jsval list \<Rightarrow> query list \<Rightarrow> query list" where
  "invalidateQueries k qs =
     map (\<lambda>q. if prefix k (queryKey q) then q\<lparr>isInvalidated := True\<rparr> else q) qs"

datatype toast = ToastSuccess string | ToastError string

text \<open>A request sent by the HTTP client, \<open>api.post(path, body)\<close>: the path and the JSON body.\<close>

datatype request = Post string jsval

section \<open>The client receipt store\<close>

record receiptStore =
  receipts :: "obj list"
  selectedReceipt :: "obj option"
  filters :: obj
  isUploading :: bool
  uploadProgress :: nat

text \<open>\<open>r.id === id\<close> for a string \<open>id\<close>\<close>

definition id_is :: "string \<Rightarrow> obj \<Rightarrow> bool" where
  "id_is ident r = (field r ''id'' = JStr ident)"

text \<open>\<open>{ ...r, ...updates }\<close>: the properties of \<open>updates\<close> override those of \<open>r\<close>.\<close>

definition updateReceipt :: "string \<Rightarrow> obj \<Rightarrow> receiptStore \<Rightarrow> receiptStore" where
  "updateReceipt ident updates state =
     state\<lparr>receipts := map (\<lambda>r. if id_is ident r then r ++ updates else r) (receipts state)\<rparr>"

definition deleteReceipt :: "string \<Rightarrow> receiptStore \<Rightarrow> receiptStore" where
  "deleteReceipt ident state =
     state\<lparr>receipts := filter (\<lambda>r. \<not> id_is ident r) (receipts state)\<rparr>"

definition setIsUploading :: "bool \<Rightarrow> receiptStore \<Rightarrow> receiptStore" where
  "setIsUploading b state = state\<lparr>isUploading := b\<rparr>"

definition setUploadProgress :: "nat \<Rightarrow> receiptStore \<Rightarrow> receiptStore" where
  "setUploadProgress n state = state\<lparr>uploadProgress := n\<rparr>"

section \<open>The upload page\<close>

subsection \<open>Building the draft from the extraction result\<close>

text \<open>
  The object literal passed to \<open>setPendingOCRData\<close> in \<open>uploadMutation.onSuccess\<close>:
  every field is the extracted value when that is truthy and a default otherwise.
\<close>

definition normalise_ocrData :: "string \<Rightarrow> jsval \<Rightarrow> jsval \<Rightarrow> obj" where
  "normalise_ocrData now_iso firstFile ocrData =
     [''storeName'' \<mapsto> js_or (js_prop ocrData ''storeName'') (JStr []),
      ''date'' \<mapsto> js_or (js_prop ocrData ''date'') (JStr (iso_date now_iso)),
      ''totalAmount'' \<mapsto> js_or (js_prop ocrData ''totalAmount'') (JNum (Fin 0)),
      ''taxAmount'' \<mapsto> js_or (js_prop ocrData ''taxAmount'') (JNum (Fin 0)),
      ''items'' \<mapsto> js_or (js_prop ocrData ''items'') (JArr []),
      ''ocrStatus'' \<mapsto> js_or (js_prop ocrData ''ocrStatus'') (JStr ''success''),
      ''ocrMessage'' \<mapsto> js_or (js_prop ocrData ''ocrMessage'') (JStr []),
      ''imageUrl'' \<mapsto> js_or (js_prop firstFile ''imageUrl'') (JStr []),
      ''receiptId'' \<mapsto> js_or (js_prop firstFile ''id'') (JStr [])]"

subsection \<open>The state of the page and its mutations\<close>

text \<open>
  The component state of \<open>Upload\<close> (\<open>files\<close> by file name), the pending flag of
  \<open>verifyMutation\<close>, and what the page's effects act on: the receipt store, the toasts
  shown, the query cache and the requests sent.
\<close>

record upload =
  files :: "string list"
  uploadedCount :: nat
  verifyModalOpen :: bool
  pendingOCRData :: "obj option"
  verifyPending :: bool
  store :: receiptStore
  toasts :: "toast list"
  cache :: "query list"
  requests :: "request list"

definition uploadMutation_onSuccess :: "string \<Rightarrow> array \<Rightarrow> upload \<Rightarrow> upload" where
  "uploadMutation_onSuccess now_iso uploadedFiles u =
     (let u1 =
        (if length uploadedFiles > 0 then
           (let firstFile = index_get uploadedFiles 0 in
            if truthy firstFile \<and> typeof_object firstFile \<and> js_in ''ocrData'' firstFile
               \<and> truthy (js_prop firstFile ''ocrData'')
            then
              u\<lparr>pendingOCRData :=
                   Some (normalise_ocrData now_iso firstFile (js_prop firstFile ''ocrData'')),
                verifyModalOpen := True,
                uploadedCount := length uploadedFiles\<rparr>
            else
              u\<lparr>toasts := toasts u @
                   [ToastSuccess (''Successfully uploaded '' @ dec (length uploadedFiles)
                      @ '' receipts!'')],
                cache := invalidateQueries [JStr ''receipt-stats'']
                           (invalidateQueries [JStr ''receipts''] (cache u)),
                files := [],
                uploadedCount := length uploadedFiles\<rparr>)
         else u)
      in u1\<lparr>store := setIsUploading False (store u1)\<rparr>)"

definition uploadMutation_onError :: "upload \<Rightarrow> upload" where
  "uploadMutation_onError u =
     u\<lparr>toasts := toasts u @ [ToastError ''Failed to upload receipts''],
       store := setIsUploading False (store u)\<rparr>"

text \<open>\<open>receiptApi.verifyOCRReceipt\<close>: the data is the body of the request as it is.\<close>

definition verifyOCRReceipt :: "jsval \<Rightarrow> request" where
  "verifyOCRReceipt receiptData = Post ''/receipts/verify'' receiptData"

text \<open>
  \<open>verifyMutation.mutate\<close> runs the mutation function, which sends the request; the
  mutation is pending until the response settles it.
\<close>

definition verifyMutation_mutate :: "jsval \<Rightarrow> upload \<Rightarrow> upload" where
  "verifyMutation_mutate verifiedData u =
     u\<lparr>verifyPending := True, requests := requests u @ [verifyOCRReceipt verifiedData]\<rparr>"

definition verifyMutation_onSuccess :: "upload \<Rightarrow> upload" where
  "verifyMutation_onSuccess u =
     u\<lparr>toasts := toasts u @
          [ToastSuccess ''Receipt verified and saved to database successfully!''],
       verifyModalOpen := False,
       files := [],
       pendingOCRData := None,
       cache := invalidateQueries [JStr ''receipt-stats'']
                  (invalidateQueries [JStr ''receipts''] (cache u)),
       uploadedCount := 1,
       verifyPending := False\<rparr>"

definition verifyMutation_onError :: "upload \<Rightarrow> upload" where
  "verifyMutation_onError u =
     u\<lparr>toasts := toasts u @ [ToastError ''Failed to verify and save receipt''],
       verifyPending := False\<rparr>"

definition handleVerifyOCR :: "jsval \<Rightarrow> upload \<Rightarrow> upload" where
  "handleVerifyOCR verifiedData u = verifyMutation_mutate verifiedData u"

definition handleCancelVerify :: "upload \<Rightarrow> upload" where
  "handleCancelVerify u = u\<lparr>verifyModalOpen := False, pendingOCRData := None\<rparr>"

text \<open>The \<open>data\<close> property handed to the modal: the pending draft, or a placeholder.\<close>

definition data_prop :: "upload \<Rightarrow> obj" where
  "data_prop u =
     (case pendingOCRData u of
        Some d \<Rightarrow> d
      | None \<Rightarrow>
          [''storeName'' \<mapsto> (JStr []), ''date'' \<mapsto> (JStr []), ''totalAmount'' \<mapsto> (JNum (Fin 0)),
           ''taxAmount'' \<mapsto> (JNum (Fin 0)), ''items'' \<mapsto> (JArr []), ''ocrStatus'' \<mapsto> (JStr ''pending'')])"

section \<open>The verification modal\<close>

subsection \<open>State and edit handlers\<close>

record modal =
  editMode :: bool
  editedData :: obj

text \<open>The effect that follows a change of the \<open>data\<close> property: \<open>setEditedData(data)\<close>.\<close>

definition useEffect_data :: "obj \<Rightarrow> modal \<Rightarrow> modal" where
  "useEffect_data d m = m\<lparr>editedData := d\<rparr>"

definition handleInputChange :: "string \<Rightarrow> jsval \<Rightarrow> modal \<Rightarrow> modal" where
  "handleInputChange fld v m = m\<lparr>editedData := (editedData m)(fld \<mapsto> v)\<rparr>"

definition handleItemChange :: "nat \<Rightarrow> string \<Rightarrow> jsval \<Rightarrow> modal \<Rightarrow> error + modal" where
  "handleItemChange index fld v m =
     (case spread_iter (field (editedData m) ''items'') of
        Inl e \<Rightarrow> Inl e
      | Inr newItems \<Rightarrow>
          Inr (m\<lparr>editedData := (editedData m)(''items'' \<mapsto>
                 JArr (assign_index newItems index
                         (JObj ((spread_obj (index_get newItems index))(fld \<mapsto> v)))))\<rparr>))"

definition handleDeleteItem :: "nat \<Rightarrow> modal \<Rightarrow> error + modal" where
  "handleDeleteItem index m =
     (case field (editedData m) ''items'' of
        JArr xs \<Rightarrow>
          Inr (m\<lparr>editedData := (editedData m)(''items'' \<mapsto> JArr (filter_index 0 index xs))\<rparr>)
      | _ \<Rightarrow> Inl TypeError)"

definition new_item :: obj where
  "new_item =
     [''name'' \<mapsto> (JStr []), ''quantity'' \<mapsto> (JNum (Fin 1)), ''price'' \<mapsto> (JNum (Fin 0)),
      ''total'' \<mapsto> (JNum (Fin 0)), ''category'' \<mapsto> (JStr ''Other'')]"

definition handleAddItem :: "modal \<Rightarrow> error + modal" where
  "handleAddItem m =
     (case spread_iter (field (editedData m) ''items'') of
        Inl e \<Rightarrow> Inl e
      | Inr xs \<Rightarrow>
          Inr (m\<lparr>editedData := (editedData m)(''items'' \<mapsto> JArr (xs @ [Some (JObj new_item)]))\<rparr>))"

text \<open>
  \<open>handleConfirm\<close> hands the edited data to \<open>onConfirm\<close> (the first component of the
  result) and leaves edit mode.
\<close>

definition handleConfirm :: "modal \<Rightarrow> jsval \<times> modal" where
  "handleConfirm m = (JObj (editedData m), m\<lparr>editMode := False\<rparr>)"

subsection \<open>The change handlers of the inputs\<close>

definition onChange_storeName :: "string \<Rightarrow> modal \<Rightarrow> modal" where
  "onChange_storeName v m = handleInputChange ''storeName'' (JStr v) m"

definition onChange_date :: "string \<Rightarrow> modal \<Rightarrow> modal" where
  "onChange_date v m = handleInputChange ''date'' (JStr v) m"

definition onChange_totalAmount :: "string \<Rightarrow> modal \<Rightarrow> modal" where
  "onChange_totalAmount v m =
     handleInputChange ''totalAmount'' (js_or (JNum (parseFloat v)) (JNum (Fin 0))) m"

definition onChange_taxAmount :: "string \<Rightarrow> modal \<Rightarrow> modal" where
  "onChange_taxAmount v m =
     handleInputChange ''taxAmount'' (js_or (JNum (parseFloat v)) (JNum (Fin 0))) m"

definition onChange_item_name :: "nat \<Rightarrow> string \<Rightarrow> modal \<Rightarrow> error + modal" where
  "onChange_item_name idx v m = handleItemChange idx ''name'' (JStr v) m"

definition onChange_item_quantity :: "nat \<Rightarrow> string \<Rightarrow> modal \<Rightarrow> error + modal" where
  "onChange_item_quantity idx v m =
     handleItemChange idx ''quantity'' (js_or (JNum (parseFloat v)) (JNum (Fin 1))) m"

definition onChange_item_price :: "nat \<Rightarrow> string \<Rightarrow> modal \<Rightarrow> error + modal" where
  "onChange_item_price idx v m =
     handleItemChange idx ''price'' (js_or (JNum (parseFloat v)) (JNum (Fin 0))) m"

definition onChange_item_category :: "nat \<Rightarrow> string \<Rightarrow> modal \<Rightarrow> error + modal" where
  "onChange_item_category idx v m = handleItemChange idx ''category'' (JStr v) m"

subsection \<open>What the modal renders\<close>

text \<open>
  The controls of the modal that respond to the user: those rendered, not disabled and
  not read-only.
\<close>

datatype control =
    Backdrop
  | CloseButton
  | StoreNameInput
  | DateInput
  | TotalAmountInput
  | TaxAmountInput
  | AddItemButton
  | DeleteItemButton nat
  | ItemNameInput nat
  | ItemQuantityInput nat
  | ItemPriceInput nat
  | ItemCategorySelect nat
  | EditAndAddItemsButton
  | CancelButton
  | EditButton
  | VerifyAndSaveButton
  | CancelEditButton
  | SaveChangesButton

text \<open>
  \<open>editedData.items.map((item, idx) => ...)\<close>, from index \<open>i\<close> on: holes are skipped, and
  reading \<open>item.name\<close> throws on an undefined or null item. The inputs of a row are
  read-only outside edit mode, where the delete button is not rendered.
\<close>

fun item_rows :: "bool \<Rightarrow> nat \<Rightarrow> array \<Rightarrow> error + control list" where
  "item_rows e i [] = Inr []"
| "item_rows e i (None # xs) = item_rows e (Suc i) xs"
| "item_rows e i (Some v # xs) =
     (if v = JUndefined \<or> v = JNull then Inl TypeError
      else case item_rows e (Suc i) xs of
             Inl err \<Rightarrow> Inl err
           | Inr cs \<Rightarrow>
               Inr ((if e then [DeleteItemButton i, ItemNameInput i, ItemQuantityInput i,
                                ItemPriceInput i, ItemCategorySelect i]
                     else []) @ cs))"

text \<open>The notice shown for \<open>editedData.items.length === 0\<close>.\<close>

definition empty_items_message :: "bool \<Rightarrow> control list" where
  "empty_items_message e = (if e then [AddItemButton] else [EditAndAddItemsButton])"

text \<open>
  The items section and the notice, guarded by \<open>editedData.items.length > 0\<close> and
  \<open>editedData.items.length === 0\<close>. On a value that is no array, \<open>length\<close> is undefined
  (booleans, numbers), the string's length, or the object's own \<open>length\<close> property, and
  \<open>map\<close> is no function. An object whose \<open>length\<close> property is a string, an array or
  an object would be compared with 0 through ToNumber and rendered as the item count,
  which is not modelled.
\<close>

fun items_section :: "bool \<Rightarrow> jsval \<Rightarrow> error + control list" where
  "items_section e (JArr xs) =
     (if length xs > 0 then
        (case item_rows e 0 xs of
           Inl err \<Rightarrow> Inl err
         | Inr cs \<Rightarrow> Inr ((if e then [AddItemButton] else []) @ cs))
      else Inr (empty_items_message e))"
| "items_section e (JStr s) =
     (if length s > 0 then Inl TypeError else Inr (empty_items_message e))"
| "items_section e JUndefined = Inl TypeError"
| "items_section e JNull = Inl TypeError"
| "items_section e (JBool b) = Inr []"
| "items_section e (JNum n) = Inr []"
| "items_section e (JObj m) =
     (case field m ''length'' of
        JNum (Fin r) \<Rightarrow>
          if r > 0 then Inl TypeError
          else if r = 0 then Inr (empty_items_message e)
          else Inr []
      | JNum PosInf \<Rightarrow> Inl TypeError
      | JNum _ \<Rightarrow> Inr []
      | JBool b \<Rightarrow> if b then Inl TypeError else Inr []
      | JStr _ \<Rightarrow> Inl Unmodelled
      | JArr _ \<Rightarrow> Inl Unmodelled
      | JObj _ \<Rightarrow> Inl Unmodelled
      | _ \<Rightarrow> Inr [])"

definition footer :: "obj \<Rightarrow> bool \<Rightarrow> bool \<Rightarrow> control list" where
  "footer data isLoading e =
     (if \<not> e then
        [CancelButton]
        @ (if field data ''ocrStatus'' = JStr ''error'' then [] else [EditButton])
        @ (if isLoading \<or> field data ''ocrStatus'' = JStr ''error'' then []
           else [VerifyAndSaveButton])
      else
        [CancelEditButton] @ (if isLoading then [] else [SaveChangesButton]))"

text \<open>The values that React renders as text or not at all.\<close>

fun primitive :: "jsval \<Rightarrow> bool" where
  "primitive (JObj m) = False"
| "primitive (JArr xs) = False"
| "primitive v = True"

text \<open>
  The modal renders nothing while it is closed. For a failed extraction it shows
  \<open>data.ocrMessage\<close>; the rendering of a message that is an array or an object is not
  modelled.
\<close>

definition render :: "bool \<Rightarrow> obj \<Rightarrow> bool \<Rightarrow> modal \<Rightarrow> error + control list" where
  "render isOpen data isLoading m =
     (if \<not> isOpen then Inr []
      else if field data ''ocrStatus'' = JStr ''error'' \<and> \<not> primitive (field data ''ocrMessage'')
      then Inl Unmodelled
      else case items_section (editMode m) (field (editedData m) ''items'') of
             Inl err \<Rightarrow> Inl err
           | Inr cs \<Rightarrow>
               Inr ([Backdrop, CloseButton]
                    @ (if editMode m
                       then [StoreNameInput, DateInput, TotalAmountInput, TaxAmountInput]
                       else [])
                    @ cs
                    @ footer data isLoading (editMode m)))"

section \<open>The page and its modal together\<close>

record system =
  page :: upload
  dialog :: modal

definition view :: "system \<Rightarrow> error + control list" where
  "view s =
     render (verifyModalOpen (page s)) (data_prop (page s)) (verifyPending (page s)) (dialog s)"

text \<open>
  The \<open>data\<close> property is \<open>pendingOCRData || {...}\<close>: a pending draft is the same object
  at every render of the page, while without one each render of the page makes a fresh
  placeholder, which the modal's effect copies into \<open>editedData\<close>.
\<close>

definition rerender :: "upload \<Rightarrow> modal \<Rightarrow> modal" where
  "rerender p m = (if pendingOCRData p = None then useEffect_data (data_prop p) m else m)"

text \<open>\<open>onCancel\<close> is \<open>handleCancelVerify\<close>.\<close>

definition onCancel :: "system \<Rightarrow> system" where
  "onCancel s =
     (let p = handleCancelVerify (page s) in \<lparr>page = p, dialog = rerender p (dialog s)\<rparr>)"

text \<open>\<open>onConfirm\<close> is \<open>handleVerifyOCR\<close>.\<close>

definition confirm :: "system \<Rightarrow> system" where
  "confirm s =
     (case handleConfirm (dialog s) of
        (verifiedData, m) \<Rightarrow>
          (let p = handleVerifyOCR verifiedData (page s) in \<lparr>page = p, dialog = rerender p m\<rparr>))"

definition lift_dialog :: "(error + modal) \<Rightarrow> system \<Rightarrow> error + system" where
  "lift_dialog r s = (case r of Inl e \<Rightarrow> Inl e | Inr m \<Rightarrow> Inr (s\<lparr>dialog := m\<rparr>))"

text \<open>The \<open>onClick\<close> handler of each control (an input has none).\<close>

fun click :: "control \<Rightarrow> system \<Rightarrow> error + system" where
  "click Backdrop s = Inr (onCancel s)"
| "click CloseButton s = Inr (onCancel s)"
| "click CancelButton s = Inr (onCancel s)"
| "click EditButton s = Inr (s\<lparr>dialog := (dialog s)\<lparr>editMode := True\<rparr>\<rparr>)"
| "click EditAndAddItemsButton s = Inr (s\<lparr>dialog := (dialog s)\<lparr>editMode := True\<rparr>\<rparr>)"
| "click CancelEditButton s =
     Inr (s\<lparr>dialog := (dialog s)\<lparr>editMode := False, editedData := data_prop (page s)\<rparr>\<rparr>)"
| "click VerifyAndSaveButton s = Inr (confirm s)"
| "click SaveChangesButton s = Inr (confirm s)"
| "click AddItemButton s = lift_dialog (handleAddItem (dialog s)) s"
| "click (DeleteItemButton idx) s = lift_dialog (handleDeleteItem idx (dialog s)) s"
| "click c s = Inr s"

text \<open>The \<open>onChange\<close> handler of each input, with the text entered.\<close>

fun change :: "control \<Rightarrow> string \<Rightarrow> system \<Rightarrow> error + system" where
  "change StoreNameInput v s = Inr (s\<lparr>dialog := onChange_storeName v (dialog s)\<rparr>)"
| "change DateInput v s = Inr (s\<lparr>dialog := onChange_date v (dialog s)\<rparr>)"
| "change TotalAmountInput v s = Inr (s\<lparr>dialog := onChange_totalAmount v (dialog s)\<rparr>)"
| "change TaxAmountInput v s = Inr (s\<lparr>dialog := onChange_taxAmount v (dialog s)\<rparr>)"
| "change (ItemNameInput idx) v s = lift_dialog (onChange_item_name idx v (dialog s)) s"
| "change (ItemQuantityInput idx) v s = lift_dialog (onChange_item_quantity idx v (dialog s)) s"
| "change (ItemPriceInput idx) v s = lift_dialog (onChange_item_price idx v (dialog s)) s"
| "change (ItemCategorySelect idx) v s = lift_dialog (onChange_item_category idx v (dialog s)) s"
| "change c v s = Inr s"

text \<open>The condition under which \<open>uploadMutation.onSuccess\<close> sets the pending draft.\<close>

definition has_ocrData :: "array \<Rightarrow> bool" where
  "has_ocrData uploadedFiles =
     (length uploadedFiles > 0 \<and>
      (let firstFile = index_get uploadedFiles 0 in
       truthy firstFile \<and> typeof_object firstFile \<and> js_in ''ocrData'' firstFile
       \<and> truthy (js_prop firstFile ''ocrData'')))"

text \<open>
  The responses of the two requests. A draft set by a successful upload is a new object,
  which the modal's effect copies; the settled commit clears the draft on success and
  leaves it on failure.
\<close>

definition upload_succeeded :: "string \<Rightarrow> array \<Rightarrow> system \<Rightarrow> system" where
  "upload_succeeded now_iso uploadedFiles s =
     (let p = uploadMutation_onSuccess now_iso uploadedFiles (page s)
      in \<lparr>page = p,
          dialog = (if has_ocrData uploadedFiles then useEffect_data (data_prop p) (dialog s)
                    else rerender p (dialog s))\<rparr>)"

definition verify_succeeded :: "system \<Rightarrow> system" where
  "verify_succeeded s =
     (let p = verifyMutation_onSuccess (page s) in \<lparr>page = p, dialog = rerender p (dialog s)\<rparr>)"

definition verify_failed :: "system \<Rightarrow> system" where
  "verify_failed s =
     (let p = verifyMutation_onError (page s) in \<lparr>page = p, dialog = rerender p (dialog s)\<rparr>)"

section \<open>The receipt detail modal and the receipts page\<close>

text \<open>
  The modal that edits a persisted receipt keeps its own copy, \<open>editedReceipt\<close> (null
  without a receipt). Its numeric inputs pass the result of \<open>parseFloat\<close> on as it is.
\<close>

record detail =
  detailEditMode :: bool
  editedReceipt :: "obj option"

definition detail_handleInputChange :: "string \<Rightarrow> jsval \<Rightarrow> detail \<Rightarrow> detail" where
  "detail_handleInputChange fld v d =
     (case editedReceipt d of
        None \<Rightarrow> d
      | Some prev \<Rightarrow> d\<lparr>editedReceipt := Some (prev(fld \<mapsto> v))\<rparr>)"

definition detail_onChange_totalAmount :: "string \<Rightarrow> detail \<Rightarrow> detail" where
  "detail_onChange_totalAmount v d =
     detail_handleInputChange ''totalAmount'' (JNum (parseFloat v)) d"

definition detail_onChange_taxAmount :: "string \<Rightarrow> detail \<Rightarrow> detail" where
  "detail_onChange_taxAmount v d =
     detail_handleInputChange ''taxAmount'' (JNum (parseFloat v)) d"

text \<open>The page state of \<open>Receipts\<close> that its two mutations act on.\<close>

record receiptsPage =
  isModalOpen :: bool
  pageToasts :: "toast list"
  pageCache :: "query list"

definition updateReceiptMutation_onSuccess :: "receiptsPage \<Rightarrow> receiptsPage" where
  "updateReceiptMutation_onSuccess p =
     p\<lparr>pageCache := invalidateQueries [JStr ''receipts''] (pageCache p),
       pageToasts := pageToasts p @ [ToastSuccess ''Receipt updated successfully''],
       isModalOpen := False\<rparr>"

definition deleteReceiptMutation_onSuccess :: "receiptsPage \<Rightarrow> receiptsPage" where
  "deleteReceiptMutation_onSuccess p =
     p\<lparr>pageCache := invalidateQueries [JStr ''receipts''] (pageCache p),
       pageToasts := pageToasts p @ [ToastSuccess ''Receipt deleted successfully''],
       isModalOpen := False\<rparr>"

section \<open>Initial states and example data\<close>

text \<open>The states the store and the components start in.\<close>

definition initial_store :: receiptStore where
  "initial_store =
     \<lparr>receipts = [], selectedReceipt = None, filters = Map.empty, isUploading = False,
      uploadProgress = 0\<rparr>"

definition initial_upload :: upload where
  "initial_upload =
     \<lparr>files = [], uploadedCount = 0, verifyModalOpen = False, pendingOCRData = None,
      verifyPending = False, store = initial_store, toasts = [], cache = [], requests = []\<rparr>"

definition initial_system :: system where
  "initial_system =
     \<lparr>page = initial_upload,
      dialog = \<lparr>editMode = False, editedData = data_prop initial_upload\<rparr>\<rparr>"

text \<open>The property names of a draft.\<close>

definition draft_keys :: "string set" where
  "draft_keys =
     {''storeName'', ''date'', ''totalAmount'', ''taxAmount'', ''items'', ''ocrStatus'',
      ''ocrMessage'', ''imageUrl'', ''receiptId''}"

text \<open>An extraction result without date and tax amount, and the uploaded file carrying it.\<close>

definition cafe_x :: obj where
  "cafe_x =
     [''storeName'' \<mapsto> (JStr ''Cafe X''), ''totalAmount'' \<mapsto> (JNum (Fin 250)),
      ''items'' \<mapsto> (JArr []), ''ocrStatus'' \<mapsto> (JStr ''success'')]"

definition cafe_file :: obj where
  "cafe_file =
     [''id'' \<mapsto> (JStr ''r1''), ''imageUrl'' \<mapsto> (JStr ''/img/1.png''), ''ocrData'' \<mapsto> (JObj cafe_x)]"

text \<open>An items array as the extraction contract has it: every slot holds an object.\<close>

definition is_item_array :: "array \<Rightarrow> bool" where
  "is_item_array xs = list_all (\<lambda>s. case s of Some (JObj m) \<Rightarrow> True | _ \<Rightarrow> False) xs"

text \<open>A store with three receipts, two of them under the same id.\<close>

definition receipt_a :: obj where
  "receipt_a = [''id'' \<mapsto> (JStr ''a''), ''storeName'' \<mapsto> (JStr ''Cafe X'')]"

definition receipt_b :: obj where
  "receipt_b = [''id'' \<mapsto> (JStr ''b''), ''storeName'' \<mapsto> (JStr ''Bakery'')]"

definition example_store :: receiptStore where
  "example_store = initial_store\<lparr>receipts := [receipt_a, receipt_b, receipt_a]\<rparr>"

text \<open>An extraction result without a status, and the uploaded file carrying it.\<close>

definition receipt_no_status :: obj where
  "receipt_no_status =
     [''storeName'' \<mapsto> (JStr ''Cafe X''),
      ''items'' \<mapsto> (JArr [Some (JObj [''name'' \<mapsto> (JStr ''Tea''), ''price'' \<mapsto> (JNum (Fin 40))])])]"

definition file_no_status :: obj where
  "file_no_status = [''id'' \<mapsto> (JStr ''r2''), ''ocrData'' \<mapsto> (JObj receipt_no_status)]"

text \<open>
  Two failed extractions, one with an item and one without items, and the uploaded files
  carrying them.
\<close>

definition failed_extraction :: obj where
  "failed_extraction =
     [''ocrStatus'' \<mapsto> (JStr ''error''), ''ocrMessage'' \<mapsto> (JStr ''unreadable''),
      ''items'' \<mapsto> (JArr [Some (JObj [''name'' \<mapsto> (JStr ''Tea'')])])]"

definition failed_file :: obj where
  "failed_file = [''id'' \<mapsto> (JStr ''r3''), ''ocrData'' \<mapsto> (JObj failed_extraction)]"

definition failed_empty :: obj where
  "failed_empty = [''ocrStatus'' \<mapsto> (JStr ''error''), ''ocrMessage'' \<mapsto> (JStr ''unreadable'')]"

definition failed_empty_file :: obj where
  "failed_empty_file = [''id'' \<mapsto> (JStr ''r4''), ''ocrData'' \<mapsto> (JObj failed_empty)]"

text \<open>
  The cached queries of the receipts page and the dashboard: the receipt list, the stats
  and the analytics of the selected time range.
\<close>

definition dashboard_cache :: "query list" where
  "dashboard_cache =
     [\<lparr>queryKey = [JStr ''receipts'', JStr ''user-1''], isInvalidated = False\<rparr>,
      \<lparr>queryKey = [JStr ''receipt-stats'', JStr ''30d''], isInvalidated = False\<rparr>,
      \<lparr>queryKey = [JStr ''analytics'', JStr ''30d''], isInvalidated = False\<rparr>]"

text \<open>The property \<open>k\<close> of the item at index \<open>i\<close> of the edited data.\<close>

definition item_prop :: "nat \<Rightarrow> string \<Rightarrow> modal \<Rightarrow> jsval" where
  "item_prop i k m =
     (case field (editedData m) ''items'' of
        JArr ys \<Rightarrow> js_prop (index_get ys i) k
      | _ \<Rightarrow> JUndefined)"

text \<open>A modal in edit mode on a draft with one item, and a detail modal on a receipt.\<close>

definition tea_modal :: modal where
  "tea_modal =
     \<lparr>editMode = True,
      editedData =
        [''storeName'' \<mapsto> (JStr ''Cafe X''),
         ''totalAmount'' \<mapsto> (JNum (Fin 80)),
         ''items'' \<mapsto> (JArr [Some (JObj [''name'' \<mapsto> (JStr ''Tea''), ''quantity'' \<mapsto> (JNum (Fin 2)),
                                       ''price'' \<mapsto> (JNum (Fin 40)), ''total'' \<mapsto> (JNum (Fin 80))])]),
         ''ocrStatus'' \<mapsto> (JStr ''success'')]\<rparr>"

section \<open>Sequences of item edits\<close>

text \<open>
  The three item operations of the modal, named as the specification names them, each
  with the handler that carries it out; a sequence stops at the first exception.
\<close>

datatype op = SetItemField nat string jsval | RemoveItem nat | AddItem

fun apply_op :: "op \<Rightarrow> modal \<Rightarrow> error + modal" where
  "apply_op (SetItemField index fld v) m = handleItemChange index fld v m"
| "apply_op (RemoveItem index) m = handleDeleteItem index m"
| "apply_op AddItem m = handleAddItem m"

fun apply_ops :: "op list \<Rightarrow> modal \<Rightarrow> error + modal" where
  "apply_ops [] m = Inr m"
| "apply_ops (x # ops) m =
     (case apply_op x m of Inl e \<Rightarrow> Inl e | Inr m' \<Rightarrow> apply_ops ops m')"

text \<open>Every index of the sequence addresses an item present when its operation runs.\<close>

fun in_bounds :: "op list \<Rightarrow> nat \<Rightarrow> bool" where
  "in_bounds [] n = True"
| "in_bounds (SetItemField index fld v # ops) n = (index < n \<and> in_bounds ops n)"
| "in_bounds (RemoveItem index # ops) n = (index < n \<and> in_bounds ops (n - 1))"
| "in_bounds (AddItem # ops) n = in_bounds ops (Suc n)"

text \<open>The numbers of adds and removes, and the property names written by the sequence.\<close>

fun adds :: "op list \<Rightarrow> nat" where
  "adds [] = 0"
| "adds (AddItem # ops) = Suc (adds ops)"
| "adds (x # ops) = adds ops"

fun removes :: "op list \<Rightarrow> nat" where
  "removes [] = 0"
| "removes (RemoveItem index # ops) = Suc (removes ops)"
| "removes (x # ops) = removes ops"

fun written :: "op list \<Rightarrow> string set" where
  "written [] = {}"
| "written (SetItemField index fld v # ops) = insert fld (written ops)"
| "written (x # ops) = written ops"

text \<open>What an item holds under the property names outside \<open>W\<close>.\<close>

definition unwritten :: "string set \<Rightarrow> jsval option \<Rightarrow> obj" where
  "unwritten W s = (case s of Some (JObj m) \<Rightarrow> m |` (- W) | _ \<Rightarrow> Map.empty)"

section \<open>The extraction normaliser\<close>

lemma normalise_dom: "dom (normalise_ocrData now ff od) = draft_keys"
  by (auto simp: normalise_ocrData_def draft_keys_def split: if_splits)

lemma js_or_defined:
  "b \<noteq> JUndefined \<Longrightarrow> b \<noteq> JNull \<Longrightarrow> js_or a b \<noteq> JUndefined \<and> js_or a b \<noteq> JNull"
  by (cases a) (auto simp: js_or_def)

lemma normalise_defined:
  "k \<in> draft_keys \<Longrightarrow>
     field (normalise_ocrData now ff od) k \<noteq> JUndefined
     \<and> field (normalise_ocrData now ff od) k \<noteq> JNull"
  by (auto simp: normalise_ocrData_def draft_keys_def field_def js_or_defined)

lemma has_ocrData_obj:
  "index_get fs 0 = JObj ff \<Longrightarrow> ff ''ocrData'' = Some v \<Longrightarrow> truthy v \<Longrightarrow> has_ocrData fs"
  by (cases fs) (auto simp: has_ocrData_def index_get_def js_prop_def field_def)

lemma onSuccess_pending:
  "has_ocrData fs \<Longrightarrow>
     pendingOCRData (uploadMutation_onSuccess now fs u) =
       Some (normalise_ocrData now (index_get fs 0) (js_prop (index_get fs 0) ''ocrData''))
     \<and> verifyModalOpen (uploadMutation_onSuccess now fs u)"
  by (simp add: uploadMutation_onSuccess_def has_ocrData_def Let_def)

lemma normalise_fields:
  "field (normalise_ocrData now ff od) ''storeName'' = js_or (js_prop od ''storeName'') (JStr [])"
  "field (normalise_ocrData now ff od) ''date'' = js_or (js_prop od ''date'') (JStr (iso_date now))"
  "field (normalise_ocrData now ff od) ''totalAmount'' = js_or (js_prop od ''totalAmount'') (JNum (Fin 0))"
  "field (normalise_ocrData now ff od) ''taxAmount'' = js_or (js_prop od ''taxAmount'') (JNum (Fin 0))"
  "field (normalise_ocrData now ff od) ''items'' = js_or (js_prop od ''items'') (JArr [])"
  "field (normalise_ocrData now ff od) ''ocrStatus'' = js_or (js_prop od ''ocrStatus'') (JStr ''success'')"
  "field (normalise_ocrData now ff od) ''ocrMessage'' = js_or (js_prop od ''ocrMessage'') (JStr [])"
  by (simp_all add: normalise_ocrData_def field_def)

lemma js_or_missing: "od k = None \<Longrightarrow> js_or (js_prop (JObj od) k) b = b"
  by (simp add: js_or_def js_prop_def field_def)

lemma js_or_present: "od k = Some v \<Longrightarrow> truthy v \<Longrightarrow> js_or (js_prop (JObj od) k) b = v"
  by (simp add: js_or_def js_prop_def field_def)

text \<open>
  C1, as amended. When the first uploaded file carries an extraction result, the pending
  draft is the normalised result: a missing store name becomes the empty string, a
  missing date the date part of the current instant's ISO-8601 timestamp, a missing
  total or tax amount 0, and missing items the empty array; a truthy extracted value is
  kept. The draft has exactly the properties storeName, date, totalAmount, taxAmount,
  items, ocrStatus, ocrMessage, imageUrl and receiptId (no category), and none of them is
  undefined or null.
\<close>

theorem normaliser_defaults:
  assumes "index_get uploadedFiles 0 = JObj ff" and "ff ''ocrData'' = Some (JObj od)"
  shows "let d = normalise_ocrData now_iso (JObj ff) (JObj od) in
           pendingOCRData (uploadMutation_onSuccess now_iso uploadedFiles u) = Some d
         \<and> (od ''storeName'' = None \<longrightarrow> field d ''storeName'' = JStr [])
         \<and> (od ''date'' = None \<longrightarrow> field d ''date'' = JStr (iso_date now_iso))
         \<and> (od ''totalAmount'' = None \<longrightarrow> field d ''totalAmount'' = JNum (Fin 0))
         \<and> (od ''taxAmount'' = None \<longrightarrow> field d ''taxAmount'' = JNum (Fin 0))
         \<and> (od ''items'' = None \<longrightarrow> field d ''items'' = JArr [])
         \<and> (\<forall>k \<in> {''storeName'', ''date'', ''totalAmount'', ''taxAmount'', ''items''}.
               \<forall>v. od k = Some v \<and> truthy v \<longrightarrow> field d k = v)
         \<and> dom d = draft_keys
         \<and> (\<forall>k \<in> dom d. field d k \<noteq> JUndefined \<and> field d k \<noteq> JNull)"
proof -
  let ?d = "normalise_ocrData now_iso (JObj ff) (JObj od)"
  have h: "has_ocrData uploadedFiles"
    using assms by (auto intro: has_ocrData_obj)
  have p: "pendingOCRData (uploadMutation_onSuccess now_iso uploadedFiles u) = Some ?d"
    using onSuccess_pending [OF h, of now_iso u] assms by (simp add: js_prop_def field_def)
  have m1: "od ''storeName'' = None \<longrightarrow> field ?d ''storeName'' = JStr []"
    by (simp add: normalise_fields js_or_missing)
  have m2: "od ''date'' = None \<longrightarrow> field ?d ''date'' = JStr (iso_date now_iso)"
    by (simp add: normalise_fields js_or_missing)
  have m3: "od ''totalAmount'' = None \<longrightarrow> field ?d ''totalAmount'' = JNum (Fin 0)"
    by (simp add: normalise_fields js_or_missing)
  have m4: "od ''taxAmount'' = None \<longrightarrow> field ?d ''taxAmount'' = JNum (Fin 0)"
    by (simp add: normalise_fields js_or_missing)
  have m5: "od ''items'' = None \<longrightarrow> field ?d ''items'' = JArr []"
    by (simp add: normalise_fields js_or_missing)
  have kept: "\<forall>k \<in> {''storeName'', ''date'', ''totalAmount'', ''taxAmount'', ''items''}.
               \<forall>v. od k = Some v \<and> truthy v \<longrightarrow> field ?d k = v"
    by (simp add: normalise_fields js_or_present)
  have dm: "dom ?d = draft_keys"
    by (rule normalise_dom)
  have df: "\<forall>k \<in> dom ?d. field ?d k \<noteq> JUndefined \<and> field ?d k \<noteq> JNull"
    unfolding dm using normalise_defined by blast
  show ?thesis
    unfolding Let_def by (intro conjI p m1 m2 m3 m4 m5 kept dm df)
qed

text \<open>
  The scenario of C1: store name Cafe X, total 250, no items, no date and no tax amount.
\<close>

theorem normaliser_defaults_witness:
  "index_get [Some (JObj cafe_file)] 0 = JObj cafe_file
   \<and> cafe_file ''ocrData'' = Some (JObj cafe_x)
   \<and> (let d = normalise_ocrData ''2024-05-17T19:30:00.000Z'' (JObj cafe_file) (JObj cafe_x) in
        pendingOCRData (uploadMutation_onSuccess ''2024-05-17T19:30:00.000Z''
                          [Some (JObj cafe_file)] initial_upload) = Some d
      \<and> field d ''storeName'' = JStr ''Cafe X''
      \<and> field d ''date'' = JStr ''2024-05-17''
      \<and> field d ''totalAmount'' = JNum (Fin 250)
      \<and> field d ''taxAmount'' = JNum (Fin 0)
      \<and> field d ''items'' = JArr []
      \<and> d ''category'' = None)"
proof -
  let ?now = "''2024-05-17T19:30:00.000Z''"
  let ?d = "normalise_ocrData ?now (JObj cafe_file) (JObj cafe_x)"
  have h1: "index_get [Some (JObj cafe_file)] 0 = JObj cafe_file"
    by (simp add: index_get_def)
  have h2: "cafe_file ''ocrData'' = Some (JObj cafe_x)"
    by (simp add: cafe_file_def)
  have d: "iso_date ?now = ''2024-05-17''"
    by (simp add: iso_date_def)
  have c1: "cafe_x ''storeName'' = Some (JStr ''Cafe X'')"
    and c2: "cafe_x ''date'' = None"
    and c3: "cafe_x ''totalAmount'' = Some (JNum (Fin 250))"
    and c4: "cafe_x ''taxAmount'' = None"
    and c5: "cafe_x ''items'' = Some (JArr [])"
    by (simp_all add: cafe_x_def)
  note T = normaliser_defaults [OF h1 h2, of ?now initial_upload, unfolded Let_def]
  note p = T [THEN conjunct1]
  note T2 = T [THEN conjunct2, THEN conjunct2, THEN conjunct1]
  note T4 = T [THEN conjunct2, THEN conjunct2, THEN conjunct2, THEN conjunct2, THEN conjunct1]
  note R = T [THEN conjunct2, THEN conjunct2, THEN conjunct2, THEN conjunct2, THEN conjunct2,
              THEN conjunct2]
  note k = R [THEN conjunct1]
  note dm = R [THEN conjunct2, THEN conjunct1]
  have f1: "field ?d ''storeName'' = JStr ''Cafe X''"
    using k c1 by simp
  have f3: "field ?d ''totalAmount'' = JNum (Fin 250)"
    using k c3 by simp
  have f5: "field ?d ''items'' = JArr []"
    using k c5 by simp
  have f2: "field ?d ''date'' = JStr ''2024-05-17''"
    using T2 c2 d by simp
  have f4: "field ?d ''taxAmount'' = JNum (Fin 0)"
    using T4 c4 by simp
  have "''category'' \<notin> dom ?d"
    unfolding dm by (simp add: draft_keys_def)
  then have f6: "?d ''category'' = None"
    by (simp add: domIff)
  show ?thesis
    unfolding Let_def by (intro conjI h1 h2 p f1 f2 f3 f4 f5 f6)
qed

text \<open>
  C1 as stated expects \<open>category: "Other"\<close> in the draft of that scenario; the draft has
  no such property.
\<close>

theorem normaliser_category_counterexample:
  "field (normalise_ocrData ''2024-05-17T19:30:00.000Z'' (JObj cafe_file) (JObj cafe_x)) ''category''
     \<noteq> JStr ''Other''"
  by (simp add: normalise_ocrData_def field_def)

section \<open>Updating and deleting in the store\<close>

lemma count_list_filter:
  "count_list (filter P xs) r = (if P r then count_list xs r else 0)"
  by (induction xs) auto

lemma subseq_filter: "subseq (filter P xs) xs"
  by (induction xs) auto

text \<open>
  C10. \<open>updateReceipt\<close> keeps the length of the receipts list, leaves every receipt
  whose id differs from the given one as it is, in its place, and puts the merged receipt
  in the place of every receipt with that id; \<open>deleteReceipt\<close> yields a subsequence of
  the list from which exactly the receipts with the given id are gone: every other
  receipt occurs as often as before.
\<close>

theorem store_update_delete_frame:
  "length (receipts (updateReceipt ident updates st)) = length (receipts st)
   \<and> (\<forall>i < length (receipts st).
         \<not> id_is ident (receipts st ! i) \<longrightarrow>
           receipts (updateReceipt ident updates st) ! i = receipts st ! i)
   \<and> (\<forall>i < length (receipts st).
         id_is ident (receipts st ! i) \<longrightarrow>
           receipts (updateReceipt ident updates st) ! i = receipts st ! i ++ updates)
   \<and> subseq (receipts (deleteReceipt ident st)) (receipts st)
   \<and> (\<forall>r. count_list (receipts (deleteReceipt ident st)) r =
            (if id_is ident r then 0 else count_list (receipts st) r))"
  by (simp add: updateReceipt_def deleteReceipt_def count_list_filter subseq_filter)

text \<open>The example store, updated and deleted at id \<open>a\<close>.\<close>

theorem store_update_delete_frame_witness:
  "\<not> id_is ''a'' (receipts example_store ! 1)
   \<and> id_is ''a'' (receipts example_store ! 2)
   \<and> length (receipts (updateReceipt ''a'' [''notes'' \<mapsto> JStr ''paid''] example_store)) = 3
   \<and> receipts (updateReceipt ''a'' [''notes'' \<mapsto> JStr ''paid''] example_store) ! 1 = receipt_b
   \<and> receipts (updateReceipt ''a'' [''notes'' \<mapsto> JStr ''paid''] example_store) ! 2
       = receipt_a ++ [''notes'' \<mapsto> JStr ''paid'']
   \<and> count_list (receipts (deleteReceipt ''a'' example_store)) receipt_b
       = count_list (receipts example_store) receipt_b
   \<and> count_list (receipts (deleteReceipt ''a'' example_store)) receipt_a = 0"
proof -
  let ?u = "[''notes'' \<mapsto> JStr ''paid'']"
  have a: "id_is ''a'' receipt_a" and b: "\<not> id_is ''a'' receipt_b"
    by (simp_all add: id_is_def field_def receipt_a_def receipt_b_def)
  have r1: "receipts example_store ! 1 = receipt_b"
    and r2: "receipts example_store ! 2 = receipt_a"
    and l1: "1 < length (receipts example_store)"
    and l2: "2 < length (receipts example_store)"
    by (simp_all add: example_store_def)
  have e1: "\<not> id_is ''a'' (receipts example_store ! 1)"
    unfolding r1 by (rule b)
  have e2: "id_is ''a'' (receipts example_store ! 2)"
    unfolding r2 by (rule a)
  note T = store_update_delete_frame [of "''a''" ?u example_store]
  have w1: "length (receipts (updateReceipt ''a'' ?u example_store)) = 3"
    using T [THEN conjunct1] by (simp add: example_store_def)
  have w2: "receipts (updateReceipt ''a'' ?u example_store) ! 1 = receipt_b"
    using T [THEN conjunct2, THEN conjunct1, rule_format, OF l1 e1] by (simp only: r1)
  have w3: "receipts (updateReceipt ''a'' ?u example_store) ! 2 = receipt_a ++ ?u"
    using T [THEN conjunct2, THEN conjunct2, THEN conjunct1, rule_format, OF l2 e2]
    by (simp only: r2)
  note T5 = T [THEN conjunct2, THEN conjunct2, THEN conjunct2, THEN conjunct2, rule_format]
  have w4: "count_list (receipts (deleteReceipt ''a'' example_store)) receipt_b
              = count_list (receipts example_store) receipt_b"
    using T5 [of receipt_b] b by simp
  have w5: "count_list (receipts (deleteReceipt ''a'' example_store)) receipt_a = 0"
    using T5 [of receipt_a] a by simp
  show ?thesis
    by (intro conjI e1 e2 w1 w2 w3 w4 w5)
qed

section \<open>The modal after an upload\<close>

lemma item_rows_readonly: "is_item_array xs \<Longrightarrow> item_rows False i xs = Inr []"
proof (induction xs arbitrary: i)
  case Nil
  then show ?case by simp
next
  case (Cons s xs)
  then obtain m where s: "s = Some (JObj m)" and rest: "is_item_array xs"
    by (auto simp: is_item_array_def split: option.splits jsval.splits)
  show ?case
    using Cons.IH [OF rest] by (simp add: s)
qed

lemma item_rows_ok: "is_item_array xs \<Longrightarrow> \<exists>cs. item_rows e i xs = Inr cs"
proof (induction xs arbitrary: i)
  case Nil
  then show ?case by simp
next
  case (Cons s xs)
  then obtain m where s: "s = Some (JObj m)" and rest: "is_item_array xs"
    by (auto simp: is_item_array_def split: option.splits jsval.splits)
  from Cons.IH [OF rest] obtain cs where "item_rows e (Suc i) xs = Inr cs"
    by blast
  then show ?case
    by (simp add: s)
qed

lemma items_section_ok: "is_item_array xs \<Longrightarrow> \<exists>cs. items_section e (JArr xs) = Inr cs"
  using item_rows_ok [of xs e 0] by auto

lemma items_section_readonly:
  "is_item_array xs \<Longrightarrow>
     items_section False (JArr xs) = Inr (if xs = [] then [EditAndAddItemsButton] else [])"
  by (simp add: item_rows_readonly empty_items_message_def)

lemma confirm_in_footer:
  "field data ''ocrStatus'' \<noteq> JStr ''error'' \<Longrightarrow>
     (if e then SaveChangesButton else VerifyAndSaveButton) \<in> set (footer data False e)"
  by (simp add: footer_def)

lemma render_open:
  "items_section (editMode m) (field (editedData m) ''items'') = Inr cs \<Longrightarrow>
   field data ''ocrStatus'' = JStr ''error'' \<longrightarrow> primitive (field data ''ocrMessage'') \<Longrightarrow>
     render True data l m =
       Inr ([Backdrop, CloseButton]
            @ (if editMode m then [StoreNameInput, DateInput, TotalAmountInput, TaxAmountInput]
               else [])
            @ cs @ footer data l (editMode m))"
  by (simp add: render_def)

lemma upload_succeeded_draft:
  assumes "has_ocrData fs"
  shows "pendingOCRData (page (upload_succeeded now fs s)) =
           Some (normalise_ocrData now (index_get fs 0) (js_prop (index_get fs 0) ''ocrData''))"
    and "verifyModalOpen (page (upload_succeeded now fs s))"
    and "editedData (dialog (upload_succeeded now fs s)) =
           normalise_ocrData now (index_get fs 0) (js_prop (index_get fs 0) ''ocrData'')"
    and "editMode (dialog (upload_succeeded now fs s)) = editMode (dialog s)"
    and "verifyPending (page (upload_succeeded now fs s)) = verifyPending (page s)"
    and "requests (page (upload_succeeded now fs s)) = requests (page s)"
  using assms onSuccess_pending [OF assms, of now "page s"]
  by (simp_all add: upload_succeeded_def Let_def useEffect_data_def data_prop_def
      uploadMutation_onSuccess_def has_ocrData_def)

lemma confirm_request:
  "requests (page (confirm s)) = requests (page s) @ [verifyOCRReceipt (JObj (editedData (dialog s)))]"
  by (simp add: confirm_def handleConfirm_def handleVerifyOCR_def verifyMutation_mutate_def Let_def)

lemma js_or_empty: "od k = Some (JStr []) \<Longrightarrow> js_or (js_prop (JObj od) k) b = b"
  by (simp add: js_or_def js_prop_def field_def)

lemma js_or_status_default:
  "od ''ocrStatus'' = None \<or> od ''ocrStatus'' = Some (JStr []) \<Longrightarrow>
     js_or (js_prop (JObj od) ''ocrStatus'') (JStr ''success'') = JStr ''success''"
  by (auto simp: js_or_missing js_or_empty)

lemma normalise_status_cong:
  assumes "od ''ocrStatus'' = None \<or> od ''ocrStatus'' = Some (JStr [])"
  shows "normalise_ocrData now ff (JObj od)
           = normalise_ocrData now ff (JObj (od(''ocrStatus'' \<mapsto> JStr ''success'')))"
proof -
  have a: "js_or (js_prop (JObj (od(''ocrStatus'' \<mapsto> JStr ''success''))) ''ocrStatus'')
             (JStr ''success'') = JStr ''success''"
    by (simp add: js_or_def js_prop_def field_def)
  have b: "\<And>k. k \<noteq> ''ocrStatus'' \<Longrightarrow>
             js_prop (JObj (od(''ocrStatus'' \<mapsto> JStr ''success''))) k = js_prop (JObj od) k"
    by (simp add: js_prop_def field_def)
  show ?thesis
    unfolding normalise_ocrData_def js_or_status_default [of od, OF assms] a
    by (simp add: b)
qed

lemma normalise_status_default:
  "od ''ocrStatus'' = None \<or> od ''ocrStatus'' = Some (JStr []) \<Longrightarrow>
     field (normalise_ocrData now ff (JObj od)) ''ocrStatus'' = JStr ''success''"
  unfolding normalise_fields by (rule js_or_status_default [of od])

lemma normalise_items_array:
  assumes "od ''items'' = None \<or> (\<exists>xs. od ''items'' = Some (JArr xs) \<and> is_item_array xs)"
  shows "\<exists>xs. field (normalise_ocrData now ff (JObj od)) ''items'' = JArr xs \<and> is_item_array xs"
proof -
  from assms have "\<exists>xs. js_or (js_prop (JObj od) ''items'') (JArr []) = JArr xs \<and> is_item_array xs"
    by (auto simp: js_or_missing js_or_present is_item_array_def)
  then show ?thesis
    unfolding normalise_fields .
qed

text \<open>
  C9. When the extraction result has no \<open>ocrStatus\<close>, or an empty one, the draft's status
  is \<open>success\<close>: the draft is the very draft of the same result with status \<open>success\<close>,
  the modal opened on it offers its confirm action while no commit is pending, and
  confirming sends the draft as it is.
\<close>

theorem missing_status_is_success:
  assumes "index_get uploadedFiles 0 = JObj ff" and "ff ''ocrData'' = Some (JObj od)"
    and "od ''ocrStatus'' = None \<or> od ''ocrStatus'' = Some (JStr [])"
    and "od ''items'' = None \<or> (\<exists>xs. od ''items'' = Some (JArr xs) \<and> is_item_array xs)"
    and "\<not> verifyPending (page s)"
  shows "let s' = upload_succeeded now_iso uploadedFiles s;
             d = normalise_ocrData now_iso (JObj ff) (JObj od) in
           pendingOCRData (page s') = Some d
         \<and> editedData (dialog s') = d
         \<and> field d ''ocrStatus'' = JStr ''success''
         \<and> d = normalise_ocrData now_iso (JObj ff) (JObj (od(''ocrStatus'' \<mapsto> JStr ''success'')))
         \<and> (\<exists>cs. view s' = Inr cs
                \<and> (if editMode (dialog s') then SaveChangesButton else VerifyAndSaveButton)
                     \<in> set cs)
         \<and> requests (page (confirm s')) = requests (page s) @ [verifyOCRReceipt (JObj d)]"
proof -
  let ?s = "upload_succeeded now_iso uploadedFiles s"
  let ?d = "normalise_ocrData now_iso (JObj ff) (JObj od)"
  have h: "has_ocrData uploadedFiles"
    using assms(1,2) by (auto intro: has_ocrData_obj)
  have od: "js_prop (JObj ff) ''ocrData'' = JObj od"
    using assms(2) by (simp add: js_prop_def field_def)
  note U = upload_succeeded_draft [OF h, of now_iso s, unfolded assms(1) od]
  have c1: "pendingOCRData (page ?s) = Some ?d"
    by (rule U(1))
  have c2: "editedData (dialog ?s) = ?d"
    by (rule U(3))
  have c3: "field ?d ''ocrStatus'' = JStr ''success''"
    by (rule normalise_status_default [of od, OF assms(3)])
  have c4: "?d = normalise_ocrData now_iso (JObj ff) (JObj (od(''ocrStatus'' \<mapsto> JStr ''success'')))"
    by (rule normalise_status_cong [of od, OF assms(3)])
  obtain xs where xs: "field ?d ''items'' = JArr xs" "is_item_array xs"
    using normalise_items_array [of od, OF assms(4)] by blast
  obtain cs where cs: "items_section (editMode (dialog ?s)) (JArr xs) = Inr cs"
    using items_section_ok [OF xs(2)] by blast
  have dp: "data_prop (page ?s) = ?d"
    by (simp add: data_prop_def c1)
  have np: "\<not> verifyPending (page ?s)"
    using U(5) assms(5) by simp
  have v: "view ?s =
             Inr ([Backdrop, CloseButton]
                  @ (if editMode (dialog ?s)
                     then [StoreNameInput, DateInput, TotalAmountInput, TaxAmountInput] else [])
                  @ cs @ footer ?d False (editMode (dialog ?s)))"
  proof -
    have ne: "field ?d ''ocrStatus'' = JStr ''error'' \<longrightarrow> primitive (field ?d ''ocrMessage'')"
      by (simp add: c3)
    show ?thesis
      unfolding view_def dp
      using U(2) np render_open [of "dialog ?s" cs ?d False, OF _ ne] cs xs(1) c2
      by simp
  qed
  have ne: "field ?d ''ocrStatus'' \<noteq> JStr ''error''"
    by (simp add: c3)
  have c5: "\<exists>cs. view ?s = Inr cs
              \<and> (if editMode (dialog ?s) then SaveChangesButton else VerifyAndSaveButton)
                   \<in> set cs"
    unfolding v using confirm_in_footer [OF ne, of "editMode (dialog ?s)"] by auto
  have c6: "requests (page (confirm ?s)) = requests (page s) @ [verifyOCRReceipt (JObj ?d)]"
    by (simp add: confirm_request c2 U(6))
  show ?thesis
    unfolding Let_def by (intro conjI c1 c2 c3 c4 c5 c6)
qed

text \<open>An upload whose extraction result carries no status.\<close>

theorem missing_status_is_success_witness:
  "index_get [Some (JObj file_no_status)] 0 = JObj file_no_status
   \<and> file_no_status ''ocrData'' = Some (JObj receipt_no_status)
   \<and> receipt_no_status ''ocrStatus'' = None
   \<and> \<not> verifyPending (page initial_system)
   \<and> (let s' = upload_succeeded ''2024-05-17T19:30:00.000Z'' [Some (JObj file_no_status)]
                  initial_system in
        field (editedData (dialog s')) ''ocrStatus'' = JStr ''success''
      \<and> (\<exists>cs. view s' = Inr cs \<and> VerifyAndSaveButton \<in> set cs))"
proof -
  let ?now = "''2024-05-17T19:30:00.000Z''"
  let ?s = "upload_succeeded ?now [Some (JObj file_no_status)] initial_system"
  have h1: "index_get [Some (JObj file_no_status)] 0 = JObj file_no_status"
    by (simp add: index_get_def)
  have h2: "file_no_status ''ocrData'' = Some (JObj receipt_no_status)"
    by (simp add: file_no_status_def)
  have h3: "receipt_no_status ''ocrStatus'' = None"
    by (simp add: receipt_no_status_def)
  have h4: "\<exists>xs. receipt_no_status ''items'' = Some (JArr xs) \<and> is_item_array xs"
    by (simp add: receipt_no_status_def is_item_array_def)
  have h5: "\<not> verifyPending (page initial_system)"
    by (simp add: initial_system_def initial_upload_def)
  note T = missing_status_is_success [of _ file_no_status receipt_no_status initial_system ?now,
      OF h1 h2 disjI1 [OF h3] disjI2 [OF h4] h5,
      unfolded Let_def]
  have e: "\<not> editMode (dialog ?s)"
    using upload_succeeded_draft(4) [of "[Some (JObj file_no_status)]" ?now initial_system]
      has_ocrData_obj [OF h1 h2]
    by (simp add: initial_system_def)
  have w1: "field (editedData (dialog ?s)) ''ocrStatus'' = JStr ''success''"
    using T [THEN conjunct2, THEN conjunct1] T [THEN conjunct2, THEN conjunct2, THEN conjunct1]
    by simp
  have w2: "\<exists>cs. view ?s = Inr cs \<and> VerifyAndSaveButton \<in> set cs"
    using T [THEN conjunct2, THEN conjunct2, THEN conjunct2, THEN conjunct2, THEN conjunct1] e
    by simp
  show ?thesis
    unfolding Let_def by (intro conjI h1 h2 h3 h5 w1 w2)
qed

section \<open>A draft whose extraction failed\<close>

lemma footer_error_readonly:
  "field data ''ocrStatus'' = JStr ''error'' \<Longrightarrow> footer data l False = [CancelButton]"
  by (simp add: footer_def)

lemma view_error_readonly:
  assumes "verifyModalOpen (page s)"
    and "field (data_prop (page s)) ''ocrStatus'' = JStr ''error''"
    and "\<not> editMode (dialog s)"
    and "field (editedData (dialog s)) ''items'' = JArr xs"
    and "is_item_array xs"
    and "primitive (field (data_prop (page s)) ''ocrMessage'')"
  shows "view s =
           Inr ([Backdrop, CloseButton] @ (if xs = [] then [EditAndAddItemsButton] else [])
                @ [CancelButton])"
proof -
  have i: "items_section (editMode (dialog s)) (field (editedData (dialog s)) ''items'')
             = Inr (if xs = [] then [EditAndAddItemsButton] else [])"
    using assms(3,4) items_section_readonly [OF assms(5)] by simp
  have p: "field (data_prop (page s)) ''ocrStatus'' = JStr ''error''
             \<longrightarrow> primitive (field (data_prop (page s)) ''ocrMessage'')"
    using assms(6) by simp
  show ?thesis
    unfolding view_def
    using assms(1,3) render_open [OF i p] footer_error_readonly [OF assms(2)]
    by simp
qed

lemma onCancel_closes:
  "pendingOCRData (page (onCancel s)) = None \<and> \<not> verifyModalOpen (page (onCancel s))"
  by (simp add: onCancel_def handleCancelVerify_def Let_def)

lemma view_edit_empty:
  assumes "verifyModalOpen (page s)" and "editMode (dialog s)"
    and "field (editedData (dialog s)) ''items'' = JArr []"
    and "\<not> verifyPending (page s)"
    and "primitive (field (data_prop (page s)) ''ocrMessage'')"
  shows "view s =
           Inr [Backdrop, CloseButton, StoreNameInput, DateInput, TotalAmountInput,
                TaxAmountInput, AddItemButton, CancelEditButton, SaveChangesButton]"
  unfolding view_def using assms by (simp add: render_def footer_def empty_items_message_def)

lemma after_upload:
  assumes "index_get fs 0 = JObj ff" and "ff ''ocrData'' = Some (JObj od)"
  shows "verifyModalOpen (page (upload_succeeded now fs s))"
    and "pendingOCRData (page (upload_succeeded now fs s))
           = Some (normalise_ocrData now (JObj ff) (JObj od))"
    and "data_prop (page (upload_succeeded now fs s)) = normalise_ocrData now (JObj ff) (JObj od)"
    and "editedData (dialog (upload_succeeded now fs s))
           = normalise_ocrData now (JObj ff) (JObj od)"
    and "editMode (dialog (upload_succeeded now fs s)) = editMode (dialog s)"
    and "verifyPending (page (upload_succeeded now fs s)) = verifyPending (page s)"
    and "requests (page (upload_succeeded now fs s)) = requests (page s)"
proof -
  have h: "has_ocrData fs"
    using assms by (auto intro: has_ocrData_obj)
  have o: "js_prop (JObj ff) ''ocrData'' = JObj od"
    using assms(2) by (simp add: js_prop_def field_def)
  note U = upload_succeeded_draft [OF h, of now s, unfolded assms(1) o]
  show "verifyModalOpen (page (upload_succeeded now fs s))"
    by (rule U(2))
  show "pendingOCRData (page (upload_succeeded now fs s))
           = Some (normalise_ocrData now (JObj ff) (JObj od))"
    by (rule U(1))
  then show "data_prop (page (upload_succeeded now fs s))
               = normalise_ocrData now (JObj ff) (JObj od)"
    by (simp add: data_prop_def)
  show "editedData (dialog (upload_succeeded now fs s))
           = normalise_ocrData now (JObj ff) (JObj od)"
    by (rule U(3))
  show "editMode (dialog (upload_succeeded now fs s)) = editMode (dialog s)"
    by (rule U(4))
  show "verifyPending (page (upload_succeeded now fs s)) = verifyPending (page s)"
    by (rule U(5))
  show "requests (page (upload_succeeded now fs s)) = requests (page s)"
    by (rule U(6))
qed

lemma failed_file_facts:
  "index_get [Some (JObj failed_file)] 0 = JObj failed_file"
  "failed_file ''ocrData'' = Some (JObj failed_extraction)"
  "index_get [Some (JObj failed_empty_file)] 0 = JObj failed_empty_file"
  "failed_empty_file ''ocrData'' = Some (JObj failed_empty)"
  by (simp_all add: index_get_def failed_file_def failed_empty_file_def)

lemma failed_extraction_draft:
  "field (normalise_ocrData now ff (JObj failed_extraction)) ''ocrStatus'' = JStr ''error''"
  "field (normalise_ocrData now ff (JObj failed_extraction)) ''items''
     = JArr [Some (JObj [''name'' \<mapsto> (JStr ''Tea'')])]"
  "field (normalise_ocrData now ff (JObj failed_empty)) ''ocrStatus'' = JStr ''error''"
  "field (normalise_ocrData now ff (JObj failed_empty)) ''items'' = JArr []"
  "field (normalise_ocrData now ff (JObj failed_extraction)) ''ocrMessage'' = JStr ''unreadable''"
  "field (normalise_ocrData now ff (JObj failed_empty)) ''ocrMessage'' = JStr ''unreadable''"
  unfolding normalise_fields
  by (simp_all add: js_or_def js_prop_def field_def failed_extraction_def failed_empty_def)

lemma initial_flags:
  "\<not> editMode (dialog initial_system)" "\<not> verifyPending (page initial_system)"
  "requests (page initial_system) = []" "toasts (page initial_system) = []"
  by (simp_all add: initial_system_def initial_upload_def)

text \<open>
  Cancelling through the backdrop or the close button leaves the modal's edit mode as it
  is, so that the draft of a later upload is opened in edit mode, whatever its status.
\<close>

lemma edit_mode_survives_cancel: "editMode (dialog (onCancel s)) = editMode (dialog s)"
  by (simp add: onCancel_def Let_def rerender_def useEffect_data_def)

lemma failed_draft_opened_in_edit_mode:
  assumes "index_get fs 0 = JObj ff" and "ff ''ocrData'' = Some (JObj od)"
    and "editMode (dialog s)"
  shows "editMode (dialog (upload_succeeded now fs (onCancel s)))"
  using after_upload(5) [OF assms(1,2), of now "onCancel s"] assms(3)
  by (simp add: edit_mode_survives_cancel)

text \<open>
  C5, as amended. For a draft with status \<open>error\<close> and a message that is text, shown
  in the read-only view with its items an array of objects, the Verify and Save button and the footer's Edit button are both disabled: the controls are
  the three that cancel (which discards the draft and closes the modal) and, exactly when
  the items list is empty, the Edit and Add Items button. That button enters edit mode
  without changing the draft, and in edit mode Save Changes and Verify is enabled while
  no commit is pending.
\<close>

theorem error_status_read_only_controls:
  assumes "verifyModalOpen (page s)"
    and "field (data_prop (page s)) ''ocrStatus'' = JStr ''error''"
    and "\<not> editMode (dialog s)"
    and "field (editedData (dialog s)) ''items'' = JArr xs"
    and "is_item_array xs"
    and "primitive (field (data_prop (page s)) ''ocrMessage'')"
  shows "view s =
           Inr ([Backdrop, CloseButton] @ (if xs = [] then [EditAndAddItemsButton] else [])
                @ [CancelButton])
         \<and> click Backdrop s = Inr (onCancel s)
         \<and> click CloseButton s = Inr (onCancel s)
         \<and> click CancelButton s = Inr (onCancel s)
         \<and> pendingOCRData (page (onCancel s)) = None
         \<and> \<not> verifyModalOpen (page (onCancel s))
         \<and> (xs = [] \<and> \<not> verifyPending (page s) \<longrightarrow>
               (\<exists>s'. click EditAndAddItemsButton s = Inr s'
                     \<and> editMode (dialog s')
                     \<and> editedData (dialog s') = editedData (dialog s)
                     \<and> view s' =
                         Inr [Backdrop, CloseButton, StoreNameInput, DateInput, TotalAmountInput,
                              TaxAmountInput, AddItemButton, CancelEditButton, SaveChangesButton]))"
proof -
  have v: "view s =
           Inr ([Backdrop, CloseButton] @ (if xs = [] then [EditAndAddItemsButton] else [])
                @ [CancelButton])"
    by (rule view_error_readonly [OF assms])
  have e: "xs = [] \<and> \<not> verifyPending (page s) \<longrightarrow>
               (\<exists>s'. click EditAndAddItemsButton s = Inr s'
                     \<and> editMode (dialog s')
                     \<and> editedData (dialog s') = editedData (dialog s)
                     \<and> view s' =
                         Inr [Backdrop, CloseButton, StoreNameInput, DateInput, TotalAmountInput,
                              TaxAmountInput, AddItemButton, CancelEditButton, SaveChangesButton])"
  proof
    assume a: "xs = [] \<and> \<not> verifyPending (page s)"
    let ?s = "s\<lparr>dialog := (dialog s)\<lparr>editMode := True\<rparr>\<rparr>"
    have "view ?s =
            Inr [Backdrop, CloseButton, StoreNameInput, DateInput, TotalAmountInput,
                 TaxAmountInput, AddItemButton, CancelEditButton, SaveChangesButton]"
      using assms(1,4,6) a by (intro view_edit_empty) simp_all
    then show "\<exists>s'. click EditAndAddItemsButton s = Inr s'
                     \<and> editMode (dialog s')
                     \<and> editedData (dialog s') = editedData (dialog s)
                     \<and> view s' =
                         Inr [Backdrop, CloseButton, StoreNameInput, DateInput, TotalAmountInput,
                              TaxAmountInput, AddItemButton, CancelEditButton, SaveChangesButton]"
      by simp
  qed
  show ?thesis
    using onCancel_closes [of s] by (intro conjI v e) simp_all
qed

text \<open>A failed extraction without items: edit mode is reached through the notice.\<close>

theorem error_status_read_only_controls_witness:
  "verifyModalOpen
     (page (upload_succeeded ''2024-05-17T19:30:00.000Z'' [Some (JObj failed_empty_file)]
              initial_system))
   \<and> view (upload_succeeded ''2024-05-17T19:30:00.000Z'' [Some (JObj failed_empty_file)]
              initial_system)
       = Inr [Backdrop, CloseButton, EditAndAddItemsButton, CancelButton]
   \<and> (\<exists>s'. click EditAndAddItemsButton
               (upload_succeeded ''2024-05-17T19:30:00.000Z'' [Some (JObj failed_empty_file)]
                  initial_system) = Inr s'
            \<and> view s' =
                Inr [Backdrop, CloseButton, StoreNameInput, DateInput, TotalAmountInput,
                     TaxAmountInput, AddItemButton, CancelEditButton, SaveChangesButton])"
proof -
  let ?s = "upload_succeeded ''2024-05-17T19:30:00.000Z'' [Some (JObj failed_empty_file)]
              initial_system"
  note A = after_upload [OF failed_file_facts(3,4), of "''2024-05-17T19:30:00.000Z''" initial_system]
  have h2: "field (data_prop (page ?s)) ''ocrStatus'' = JStr ''error''"
    by (simp add: A(3) failed_extraction_draft)
  have h3: "\<not> editMode (dialog ?s)"
    by (simp add: A(5) initial_flags)
  have h4: "field (editedData (dialog ?s)) ''items'' = JArr []"
    by (simp add: A(4) failed_extraction_draft)
  have h5: "is_item_array []"
    by (simp add: is_item_array_def)
  have h6: "\<not> verifyPending (page ?s)"
    by (simp add: A(6) initial_flags)
  have h7: "primitive (field (data_prop (page ?s)) ''ocrMessage'')"
    by (simp add: A(3) failed_extraction_draft)
  note T = error_status_read_only_controls [OF A(1) h2 h3 h4 h5 h7]
  have w1: "view ?s = Inr [Backdrop, CloseButton, EditAndAddItemsButton, CancelButton]"
    using T [THEN conjunct1] by simp
  have w2: "\<exists>s'. click EditAndAddItemsButton ?s = Inr s'
            \<and> view s' =
                Inr [Backdrop, CloseButton, StoreNameInput, DateInput, TotalAmountInput,
                     TaxAmountInput, AddItemButton, CancelEditButton, SaveChangesButton]"
    using T [THEN conjunct2, THEN conjunct2, THEN conjunct2, THEN conjunct2, THEN conjunct2,
             THEN conjunct2] h6
    by blast
  show ?thesis
    by (intro conjI A(1) w1 w2)
qed

text \<open>
  C5 as stated has the edit path available for every draft with status \<open>error\<close>; for a
  failed extraction that carries an item, cancelling is all the modal offers.
\<close>

theorem error_status_no_edit_counterexample:
  "view (upload_succeeded ''2024-05-17T19:30:00.000Z'' [Some (JObj failed_file)] initial_system)
     = Inr [Backdrop, CloseButton, CancelButton]"
proof -
  note A = after_upload [OF failed_file_facts(1,2), of "''2024-05-17T19:30:00.000Z''" initial_system]
  have i: "is_item_array [Some (JObj [''name'' \<mapsto> (JStr ''Tea'')])]"
    by (simp add: is_item_array_def)
  have p: "primitive (field (data_prop (page (upload_succeeded ''2024-05-17T19:30:00.000Z''
                                                [Some (JObj failed_file)] initial_system)))
                        ''ocrMessage'')"
    by (simp add: A(3) failed_extraction_draft)
  show ?thesis
    using view_error_readonly [OF A(1) _ _ _ i p]
    by (simp add: A(3,4,5) failed_extraction_draft initial_flags)
qed

section \<open>The commit and its two outcomes\<close>

lemma confirm_state:
  "pendingOCRData (page (confirm s)) = pendingOCRData (page s)"
  "verifyModalOpen (page (confirm s)) = verifyModalOpen (page s)"
  "verifyPending (page (confirm s))"
  "toasts (page (confirm s)) = toasts (page s)"
  "\<not> editMode (dialog (confirm s))"
  by (simp_all add: confirm_def handleConfirm_def handleVerifyOCR_def verifyMutation_mutate_def
      Let_def rerender_def useEffect_data_def)

lemma confirm_keeps_edits:
  "pendingOCRData (page s) = Some d \<Longrightarrow> editedData (dialog (confirm s)) = editedData (dialog s)"
  by (simp add: confirm_def handleConfirm_def handleVerifyOCR_def verifyMutation_mutate_def
      Let_def rerender_def)

lemma verify_failed_state:
  "pendingOCRData (page (verify_failed s)) = pendingOCRData (page s)"
  "verifyModalOpen (page (verify_failed s)) = verifyModalOpen (page s)"
  "\<not> verifyPending (page (verify_failed s))"
  "requests (page (verify_failed s)) = requests (page s)"
  "toasts (page (verify_failed s)) = toasts (page s) @ [ToastError ''Failed to verify and save receipt'']"
  by (simp_all add: verify_failed_def verifyMutation_onError_def Let_def rerender_def)

lemma verify_failed_keeps_dialog:
  "pendingOCRData (page s) = Some d \<Longrightarrow> dialog (verify_failed s) = dialog s"
  by (simp add: verify_failed_def verifyMutation_onError_def Let_def rerender_def)

lemma verify_succeeded_state:
  "pendingOCRData (page (verify_succeeded s)) = None"
  "\<not> verifyModalOpen (page (verify_succeeded s))"
  "\<not> verifyPending (page (verify_succeeded s))"
  by (simp_all add: verify_succeeded_def verifyMutation_onSuccess_def Let_def)

lemma data_prop_cong: "pendingOCRData p = pendingOCRData q \<Longrightarrow> data_prop p = data_prop q"
  by (simp add: data_prop_def)

text \<open>
  C2. When the commit of a confirmed draft fails, the pending draft, the open state of
  the modal, the modal's \<open>data\<close> property and the edited data are as before the confirm,
  an error is shown and no commit is pending; one request was sent, and confirming again
  sends a second request with the same data. When the commit succeeds, the draft is
  discarded and the modal closed.
\<close>

theorem failed_commit_keeps_draft:
  assumes "pendingOCRData (page s) = Some d"
  shows "pendingOCRData (page (verify_failed (confirm s))) = Some d
       \<and> verifyModalOpen (page (verify_failed (confirm s))) = verifyModalOpen (page s)
       \<and> data_prop (page (verify_failed (confirm s))) = data_prop (page s)
       \<and> editedData (dialog (verify_failed (confirm s))) = editedData (dialog s)
       \<and> toasts (page (verify_failed (confirm s)))
           = toasts (page s) @ [ToastError ''Failed to verify and save receipt'']
       \<and> \<not> verifyPending (page (verify_failed (confirm s)))
       \<and> requests (page (verify_failed (confirm s)))
           = requests (page s) @ [verifyOCRReceipt (JObj (editedData (dialog s)))]
       \<and> requests (page (confirm (verify_failed (confirm s))))
           = requests (page s) @ [verifyOCRReceipt (JObj (editedData (dialog s))),
                                  verifyOCRReceipt (JObj (editedData (dialog s)))]
       \<and> pendingOCRData (page (verify_succeeded (confirm s))) = None
       \<and> \<not> verifyModalOpen (page (verify_succeeded (confirm s)))"
proof -
  have pc: "pendingOCRData (page (confirm s)) = Some d"
    using assms by (simp add: confirm_state)
  have c1: "pendingOCRData (page (verify_failed (confirm s))) = Some d"
    using assms by (simp add: verify_failed_state confirm_state)
  have c2: "verifyModalOpen (page (verify_failed (confirm s))) = verifyModalOpen (page s)"
    by (simp add: verify_failed_state confirm_state)
  have c3: "data_prop (page (verify_failed (confirm s))) = data_prop (page s)"
    by (rule data_prop_cong) (simp add: verify_failed_state confirm_state)
  have c4: "editedData (dialog (verify_failed (confirm s))) = editedData (dialog s)"
    using verify_failed_keeps_dialog [OF pc] confirm_keeps_edits [OF assms] by simp
  have c5: "toasts (page (verify_failed (confirm s)))
           = toasts (page s) @ [ToastError ''Failed to verify and save receipt'']"
    by (simp add: verify_failed_state confirm_state)
  have c6: "\<not> verifyPending (page (verify_failed (confirm s)))"
    by (rule verify_failed_state)
  have c7: "requests (page (verify_failed (confirm s)))
           = requests (page s) @ [verifyOCRReceipt (JObj (editedData (dialog s)))]"
    by (simp add: verify_failed_state confirm_request)
  have c8: "requests (page (confirm (verify_failed (confirm s))))
           = requests (page s) @ [verifyOCRReceipt (JObj (editedData (dialog s))),
                                  verifyOCRReceipt (JObj (editedData (dialog s)))]"
    unfolding confirm_request [of "verify_failed (confirm s)"] c7 c4 by simp
  show ?thesis
    by (intro conjI c1 c2 c3 c4 c5 c6 c7 c8 verify_succeeded_state)
qed

text \<open>A commit of the Cafe X draft that fails and is confirmed again.\<close>

theorem failed_commit_keeps_draft_witness:
  "pendingOCRData
     (page (upload_succeeded ''2024-05-17T19:30:00.000Z'' [Some (JObj cafe_file)] initial_system))
     = Some (normalise_ocrData ''2024-05-17T19:30:00.000Z'' (JObj cafe_file) (JObj cafe_x))
   \<and> pendingOCRData
       (page (verify_failed (confirm
          (upload_succeeded ''2024-05-17T19:30:00.000Z'' [Some (JObj cafe_file)] initial_system))))
       = Some (normalise_ocrData ''2024-05-17T19:30:00.000Z'' (JObj cafe_file) (JObj cafe_x))
   \<and> verifyModalOpen
       (page (verify_failed (confirm
          (upload_succeeded ''2024-05-17T19:30:00.000Z'' [Some (JObj cafe_file)] initial_system))))
   \<and> requests
       (page (confirm (verify_failed (confirm
          (upload_succeeded ''2024-05-17T19:30:00.000Z'' [Some (JObj cafe_file)] initial_system)))))
       = [verifyOCRReceipt
            (JObj (normalise_ocrData ''2024-05-17T19:30:00.000Z'' (JObj cafe_file) (JObj cafe_x))),
          verifyOCRReceipt
            (JObj (normalise_ocrData ''2024-05-17T19:30:00.000Z'' (JObj cafe_file) (JObj cafe_x)))]"
proof -
  let ?s = "upload_succeeded ''2024-05-17T19:30:00.000Z'' [Some (JObj cafe_file)] initial_system"
  have f: "index_get [Some (JObj cafe_file)] 0 = JObj cafe_file"
    "cafe_file ''ocrData'' = Some (JObj cafe_x)"
    by (simp_all add: index_get_def cafe_file_def)
  note A = after_upload [OF f, of "''2024-05-17T19:30:00.000Z''" initial_system]
  note T = failed_commit_keeps_draft [OF A(2)]
  have w2: "verifyModalOpen (page (verify_failed (confirm ?s)))"
    using T [THEN conjunct2, THEN conjunct1] A(1) by simp
  have w3: "requests (page (confirm (verify_failed (confirm ?s))))
       = [verifyOCRReceipt
            (JObj (normalise_ocrData ''2024-05-17T19:30:00.000Z'' (JObj cafe_file) (JObj cafe_x))),
          verifyOCRReceipt
            (JObj (normalise_ocrData ''2024-05-17T19:30:00.000Z'' (JObj cafe_file) (JObj cafe_x)))]"
    using T [THEN conjunct2, THEN conjunct2, THEN conjunct2, THEN conjunct2, THEN conjunct2,
             THEN conjunct2, THEN conjunct2, THEN conjunct1]
    by (simp add: A(4,7) initial_flags)
  show ?thesis
    by (intro conjI A(2) T [THEN conjunct1] w2 w3)
qed

section \<open>The commit payload\<close>

lemma handleItemChange_dom:
  "handleItemChange i f v m = Inr m' \<Longrightarrow> dom (editedData m) \<subseteq> dom (editedData m')"
  by (auto simp: handleItemChange_def split: sum.splits)

lemma lift_item_change_dom:
  assumes "lift_dialog (handleItemChange i f v (dialog s)) s = Inr s'"
  shows "dom (editedData (dialog s)) \<subseteq> dom (editedData (dialog s'))"
proof -
  from assms obtain m where m: "handleItemChange i f v (dialog s) = Inr m" and d: "dialog s' = m"
    by (auto simp: lift_dialog_def split: sum.splits)
  show ?thesis
    unfolding d by (rule handleItemChange_dom [OF m])
qed

lemma change_dom:
  assumes "change c v s = Inr s'"
  shows "dom (editedData (dialog s)) \<subseteq> dom (editedData (dialog s'))"
proof (cases c)
  case StoreNameInput
  with assms show ?thesis by (auto simp: onChange_storeName_def handleInputChange_def)
next
  case DateInput
  with assms show ?thesis by (auto simp: onChange_date_def handleInputChange_def)
next
  case TotalAmountInput
  with assms show ?thesis by (auto simp: onChange_totalAmount_def handleInputChange_def)
next
  case TaxAmountInput
  with assms show ?thesis by (auto simp: onChange_taxAmount_def handleInputChange_def)
next
  case (ItemNameInput i)
  with assms show ?thesis
    by (simp add: onChange_item_name_def lift_item_change_dom)
next
  case (ItemQuantityInput i)
  with assms show ?thesis
    by (simp add: onChange_item_quantity_def lift_item_change_dom)
next
  case (ItemPriceInput i)
  with assms show ?thesis
    by (simp add: onChange_item_price_def lift_item_change_dom)
next
  case (ItemCategorySelect i)
  with assms show ?thesis
    by (simp add: onChange_item_category_def lift_item_change_dom)
qed (use assms in auto)

lemma status_keys_in_draft:
  "''ocrStatus'' \<in> dom (normalise_ocrData now ff od)"
  "''ocrMessage'' \<in> dom (normalise_ocrData now ff od)"
  unfolding normalise_dom by (simp_all add: draft_keys_def)

lemma cafe_facts:
  "index_get [Some (JObj cafe_file)] 0 = JObj cafe_file"
  "cafe_file ''ocrData'' = Some (JObj cafe_x)"
  "index_get [Some (JObj cafe_file), Some (JObj file_no_status)] 0 = JObj cafe_file"
  by (simp_all add: index_get_def cafe_file_def)

lemma cafe_draft_status:
  "normalise_ocrData now ff (JObj cafe_x) ''ocrStatus'' = Some (JStr ''success'')"
  "normalise_ocrData now ff (JObj cafe_x) ''ocrMessage'' = Some (JStr [])"
  by (simp_all add: normalise_ocrData_def js_or_def js_prop_def field_def cafe_x_def)

text \<open>
  C7, as amended. The body of the request that a confirm sends to \<open>/receipts/verify\<close>
  is the edited draft as it is. No change handler removes a property of the draft, and
  the draft built from an extraction result has the properties \<open>ocrStatus\<close> and
  \<open>ocrMessage\<close>, which a confirm right after the upload therefore sends along.
\<close>

theorem commit_payload_is_edited_draft:
  "requests (page (confirm s))
     = requests (page s) @ [Post ''/receipts/verify'' (JObj (editedData (dialog s)))]
   \<and> (\<forall>c v s'. change c v s = Inr s' \<longrightarrow>
         dom (editedData (dialog s)) \<subseteq> dom (editedData (dialog s')))
   \<and> (index_get fs 0 = JObj ff \<and> ff ''ocrData'' = Some (JObj od) \<longrightarrow>
         requests (page (confirm (upload_succeeded now_iso fs s)))
           = requests (page s)
             @ [Post ''/receipts/verify'' (JObj (normalise_ocrData now_iso (JObj ff) (JObj od)))]
         \<and> ''ocrStatus'' \<in> dom (normalise_ocrData now_iso (JObj ff) (JObj od))
         \<and> ''ocrMessage'' \<in> dom (normalise_ocrData now_iso (JObj ff) (JObj od)))"
proof -
  have c1: "requests (page (confirm s))
     = requests (page s) @ [Post ''/receipts/verify'' (JObj (editedData (dialog s)))]"
    by (simp add: confirm_request verifyOCRReceipt_def)
  have c2: "\<forall>c v s'. change c v s = Inr s' \<longrightarrow>
         dom (editedData (dialog s)) \<subseteq> dom (editedData (dialog s'))"
    using change_dom by blast
  have c3: "index_get fs 0 = JObj ff \<and> ff ''ocrData'' = Some (JObj od) \<longrightarrow>
         requests (page (confirm (upload_succeeded now_iso fs s)))
           = requests (page s)
             @ [Post ''/receipts/verify'' (JObj (normalise_ocrData now_iso (JObj ff) (JObj od)))]
         \<and> ''ocrStatus'' \<in> dom (normalise_ocrData now_iso (JObj ff) (JObj od))
         \<and> ''ocrMessage'' \<in> dom (normalise_ocrData now_iso (JObj ff) (JObj od))"
  proof
    assume a: "index_get fs 0 = JObj ff \<and> ff ''ocrData'' = Some (JObj od)"
    note A = after_upload [OF a [THEN conjunct1] a [THEN conjunct2], of now_iso s]
    have "requests (page (confirm (upload_succeeded now_iso fs s)))
           = requests (page s)
             @ [Post ''/receipts/verify'' (JObj (normalise_ocrData now_iso (JObj ff) (JObj od)))]"
      by (simp add: confirm_request verifyOCRReceipt_def A(4,7))
    then show "requests (page (confirm (upload_succeeded now_iso fs s)))
           = requests (page s)
             @ [Post ''/receipts/verify'' (JObj (normalise_ocrData now_iso (JObj ff) (JObj od)))]
         \<and> ''ocrStatus'' \<in> dom (normalise_ocrData now_iso (JObj ff) (JObj od))
         \<and> ''ocrMessage'' \<in> dom (normalise_ocrData now_iso (JObj ff) (JObj od))"
      by (intro conjI status_keys_in_draft)
  qed
  show ?thesis
    by (intro conjI c1 c2 c3)
qed

text \<open>The Cafe X draft, confirmed as uploaded.\<close>

theorem commit_payload_is_edited_draft_witness:
  "index_get [Some (JObj cafe_file)] 0 = JObj cafe_file
   \<and> cafe_file ''ocrData'' = Some (JObj cafe_x)
   \<and> requests (page (confirm (upload_succeeded ''2024-05-17T19:30:00.000Z''
                                [Some (JObj cafe_file)] initial_system)))
       = [Post ''/receipts/verify''
            (JObj (normalise_ocrData ''2024-05-17T19:30:00.000Z'' (JObj cafe_file) (JObj cafe_x)))]
   \<and> ''ocrStatus''
       \<in> dom (normalise_ocrData ''2024-05-17T19:30:00.000Z'' (JObj cafe_file) (JObj cafe_x))"
proof -
  note T = commit_payload_is_edited_draft [of initial_system "[Some (JObj cafe_file)]" cafe_file
      cafe_x "''2024-05-17T19:30:00.000Z''", THEN conjunct2, THEN conjunct2, rule_format,
      OF conjI [OF cafe_facts(1,2)]]
  have w: "requests (page (confirm (upload_succeeded ''2024-05-17T19:30:00.000Z''
                                [Some (JObj cafe_file)] initial_system)))
       = [Post ''/receipts/verify''
            (JObj (normalise_ocrData ''2024-05-17T19:30:00.000Z'' (JObj cafe_file) (JObj cafe_x)))]"
    using T [THEN conjunct1] by (simp add: initial_flags)
  show ?thesis
    by (intro conjI cafe_facts(1,2) w T [THEN conjunct2, THEN conjunct1])
qed

text \<open>
  C7 as stated has \<open>ocrStatus\<close> and \<open>ocrMessage\<close> stripped from the payload; the body
  sent for the Cafe X draft carries both.
\<close>

theorem commit_payload_status_counterexample:
  "requests (page (confirm (upload_succeeded ''2024-05-17T19:30:00.000Z''
                              [Some (JObj cafe_file)] initial_system)))
     = [Post ''/receipts/verify''
          (JObj (normalise_ocrData ''2024-05-17T19:30:00.000Z'' (JObj cafe_file) (JObj cafe_x)))]
   \<and> normalise_ocrData ''2024-05-17T19:30:00.000Z'' (JObj cafe_file) (JObj cafe_x) ''ocrStatus''
       = Some (JStr ''success'')
   \<and> normalise_ocrData ''2024-05-17T19:30:00.000Z'' (JObj cafe_file) (JObj cafe_x) ''ocrMessage''
       = Some (JStr [])"
proof -
  note A = after_upload [OF cafe_facts(1,2), of "''2024-05-17T19:30:00.000Z''" initial_system]
  have "requests (page (confirm (upload_succeeded ''2024-05-17T19:30:00.000Z''
                              [Some (JObj cafe_file)] initial_system)))
     = [Post ''/receipts/verify''
          (JObj (normalise_ocrData ''2024-05-17T19:30:00.000Z'' (JObj cafe_file) (JObj cafe_x)))]"
    by (simp add: confirm_request verifyOCRReceipt_def A(4,7) initial_flags)
  then show ?thesis
    by (intro conjI cafe_draft_status)
qed

section \<open>A batch of uploaded files\<close>

lemma has_ocrData_first:
  assumes "has_ocrData fs" and "index_get gs 0 = index_get fs 0"
  shows "has_ocrData gs"
proof -
  have t: "truthy (index_get gs 0)"
    using assms by (simp add: has_ocrData_def Let_def)
  then have "gs \<noteq> []"
    by (auto simp: index_get_def)
  then show ?thesis
    using assms by (simp add: has_ocrData_def Let_def)
qed

lemma upload_count:
  "has_ocrData fs \<Longrightarrow> uploadedCount (page (upload_succeeded now fs s)) = length fs"
  by (simp add: upload_succeeded_def uploadMutation_onSuccess_def has_ocrData_def Let_def)

lemma two_files:
  "has_ocrData [Some (JObj cafe_file), Some (JObj file_no_status)]"
  "has_ocrData [Some (JObj file_no_status)]"
  "index_get [Some (JObj cafe_file), Some (JObj file_no_status)] 0 = JObj cafe_file"
  "js_prop (JObj cafe_file) ''ocrData'' = JObj cafe_x"
  by (simp_all add: has_ocrData_def index_get_def cafe_file_def file_no_status_def js_prop_def
      field_def)

text \<open>
  C6, as amended. When the first file of an uploaded batch carries an extraction result,
  the modal is opened on one draft, the normalised result of that first file; the draft
  depends on no other file of the batch, whose length only sets the count shown. No
  further draft is kept: once the draft is cancelled, or confirmed and committed, no draft
  is pending and the modal is closed.
\<close>

theorem only_first_file_is_presented:
  assumes "has_ocrData fs"
  shows "pendingOCRData (page (upload_succeeded now_iso fs s))
           = Some (normalise_ocrData now_iso (index_get fs 0)
                     (js_prop (index_get fs 0) ''ocrData''))
       \<and> verifyModalOpen (page (upload_succeeded now_iso fs s))
       \<and> uploadedCount (page (upload_succeeded now_iso fs s)) = length fs
       \<and> (\<forall>gs. index_get gs 0 = index_get fs 0 \<longrightarrow>
             pendingOCRData (page (upload_succeeded now_iso gs s))
               = pendingOCRData (page (upload_succeeded now_iso fs s)))
       \<and> pendingOCRData (page (onCancel (upload_succeeded now_iso fs s))) = None
       \<and> \<not> verifyModalOpen (page (onCancel (upload_succeeded now_iso fs s)))
       \<and> pendingOCRData (page (verify_succeeded (confirm (upload_succeeded now_iso fs s)))) = None
       \<and> \<not> verifyModalOpen (page (verify_succeeded (confirm (upload_succeeded now_iso fs s))))"
proof -
  note U = upload_succeeded_draft [OF assms, of now_iso s]
  have c4: "\<forall>gs. index_get gs 0 = index_get fs 0 \<longrightarrow>
             pendingOCRData (page (upload_succeeded now_iso gs s))
               = pendingOCRData (page (upload_succeeded now_iso fs s))"
  proof (intro allI impI)
    fix gs
    assume g: "index_get gs 0 = index_get fs 0"
    have "has_ocrData gs"
      by (rule has_ocrData_first [OF assms g])
    from upload_succeeded_draft(1) [OF this, of now_iso s]
    show "pendingOCRData (page (upload_succeeded now_iso gs s))
               = pendingOCRData (page (upload_succeeded now_iso fs s))"
      unfolding U(1) g .
  qed
  show ?thesis
    by (intro conjI U(1) U(2) upload_count [OF assms] c4 onCancel_closes [THEN conjunct1]
        onCancel_closes [THEN conjunct2] verify_succeeded_state(1) verify_succeeded_state(2))
qed

text \<open>A batch of two files that both carry an extraction result.\<close>

theorem only_first_file_is_presented_witness:
  "has_ocrData [Some (JObj cafe_file), Some (JObj file_no_status)]
   \<and> pendingOCRData
       (page (upload_succeeded ''2024-05-17T19:30:00.000Z''
                [Some (JObj cafe_file), Some (JObj file_no_status)] initial_system))
       = Some (normalise_ocrData ''2024-05-17T19:30:00.000Z'' (JObj cafe_file) (JObj cafe_x))
   \<and> pendingOCRData
       (page (upload_succeeded ''2024-05-17T19:30:00.000Z''
                [Some (JObj cafe_file)] initial_system))
       = Some (normalise_ocrData ''2024-05-17T19:30:00.000Z'' (JObj cafe_file) (JObj cafe_x))
   \<and> uploadedCount
       (page (upload_succeeded ''2024-05-17T19:30:00.000Z''
                [Some (JObj cafe_file), Some (JObj file_no_status)] initial_system)) = 2"
proof -
  note T = only_first_file_is_presented [OF two_files(1), of "''2024-05-17T19:30:00.000Z''"
      initial_system, unfolded two_files(3,4)]
  have g: "index_get [Some (JObj cafe_file)] 0 = JObj cafe_file"
    by (simp add: index_get_def)
  have w2: "pendingOCRData
       (page (upload_succeeded ''2024-05-17T19:30:00.000Z''
                [Some (JObj cafe_file)] initial_system))
       = Some (normalise_ocrData ''2024-05-17T19:30:00.000Z'' (JObj cafe_file) (JObj cafe_x))"
    using T [THEN conjunct2, THEN conjunct2, THEN conjunct2, THEN conjunct1, rule_format, OF g]
      T [THEN conjunct1]
    by simp
  have w3: "uploadedCount
       (page (upload_succeeded ''2024-05-17T19:30:00.000Z''
                [Some (JObj cafe_file), Some (JObj file_no_status)] initial_system)) = 2"
    using T [THEN conjunct2, THEN conjunct2, THEN conjunct1] by simp
  show ?thesis
    by (intro conjI two_files(1) T [THEN conjunct1] w2 w3)
qed

text \<open>
  C6 as stated has the draft of every file presented in turn; in a batch of two files
  with extraction results, nothing is presented after the first draft is cancelled or
  committed, although the second file carries a result.
\<close>

theorem second_file_not_presented_counterexample:
  "has_ocrData [Some (JObj file_no_status)]
   \<and> pendingOCRData
       (page (onCancel (upload_succeeded ''2024-05-17T19:30:00.000Z''
                          [Some (JObj cafe_file), Some (JObj file_no_status)] initial_system)))
       = None
   \<and> \<not> verifyModalOpen
       (page (onCancel (upload_succeeded ''2024-05-17T19:30:00.000Z''
                          [Some (JObj cafe_file), Some (JObj file_no_status)] initial_system)))
   \<and> pendingOCRData
       (page (verify_succeeded (confirm (upload_succeeded ''2024-05-17T19:30:00.000Z''
                          [Some (JObj cafe_file), Some (JObj file_no_status)] initial_system))))
       = None
   \<and> \<not> verifyModalOpen
       (page (verify_succeeded (confirm (upload_succeeded ''2024-05-17T19:30:00.000Z''
                          [Some (JObj cafe_file), Some (JObj file_no_status)] initial_system))))"
  by (intro conjI two_files(2) onCancel_closes [THEN conjunct1] onCancel_closes [THEN conjunct2]
      verify_succeeded_state(1) verify_succeeded_state(2))

section \<open>Cache invalidation after a persistence operation\<close>

lemma invalidateQueries_length: "length (invalidateQueries k qs) = length qs"
  by (simp add: invalidateQueries_def)

lemma invalidateQueries_nth:
  "i < length qs \<Longrightarrow>
     invalidateQueries k qs ! i =
       (if prefix k (queryKey (qs ! i)) then (qs ! i)\<lparr>isInvalidated := True\<rparr> else qs ! i)"
  by (simp add: invalidateQueries_def)

lemma invalidateQueries_hit:
  "q \<in> set (invalidateQueries k qs) \<Longrightarrow> prefix k (queryKey q) \<Longrightarrow> isInvalidated q"
  by (auto simp: invalidateQueries_def split: if_splits)

lemma invalidateQueries_mono:
  "q \<in> set (invalidateQueries k qs) \<Longrightarrow>
     \<exists>q0 \<in> set qs. queryKey q = queryKey q0 \<and> (isInvalidated q0 \<longrightarrow> isInvalidated q)
        \<and> (prefix k (queryKey q0) \<longrightarrow> isInvalidated q)"
  by (auto simp: invalidateQueries_def split: if_splits)

lemma invalidate_twice_hit:
  assumes "q \<in> set (invalidateQueries k2 (invalidateQueries k1 qs))"
    and "prefix k1 (queryKey q) \<or> prefix k2 (queryKey q)"
  shows "isInvalidated q"
proof -
  from invalidateQueries_mono [OF assms(1)] obtain q1
    where q1: "q1 \<in> set (invalidateQueries k1 qs)" "queryKey q = queryKey q1"
      "isInvalidated q1 \<longrightarrow> isInvalidated q" "prefix k2 (queryKey q1) \<longrightarrow> isInvalidated q"
    by blast
  show ?thesis
  proof (cases "prefix k2 (queryKey q)")
    case True
    then show ?thesis using q1 by simp
  next
    case False
    then have "prefix k1 (queryKey q1)" using assms(2) q1(2) by simp
    then have "isInvalidated q1" using invalidateQueries_hit [OF q1(1)] by simp
    then show ?thesis using q1(3) by simp
  qed
qed

lemma dashboard_after_commit:
  "cache (verifyMutation_onSuccess (initial_upload\<lparr>cache := dashboard_cache\<rparr>)) =
     [\<lparr>queryKey = [JStr ''receipts'', JStr ''user-1''], isInvalidated = True\<rparr>,
      \<lparr>queryKey = [JStr ''receipt-stats'', JStr ''30d''], isInvalidated = True\<rparr>,
      \<lparr>queryKey = [JStr ''analytics'', JStr ''30d''], isInvalidated = False\<rparr>]"
  by (simp add: verifyMutation_onSuccess_def invalidateQueries_def dashboard_cache_def)

text \<open>
  C8, as amended. After a successful commit every cached query whose key starts with
  \<open>receipts\<close> or \<open>receipt-stats\<close> is invalidated and every other cached query,
  the dashboard's analytics among them, is left as it is; after a successful update and
  after a successful delete every cached query whose key starts with \<open>receipts\<close> is
  invalidated.
\<close>

theorem commit_update_delete_invalidation:
  "(\<forall>q \<in> set (cache (verifyMutation_onSuccess u)).
      prefix [JStr ''receipts''] (queryKey q) \<or> prefix [JStr ''receipt-stats''] (queryKey q)
        \<longrightarrow> isInvalidated q)
   \<and> (\<forall>i < length (cache u).
         \<not> prefix [JStr ''receipts''] (queryKey (cache u ! i))
         \<and> \<not> prefix [JStr ''receipt-stats''] (queryKey (cache u ! i))
           \<longrightarrow> cache (verifyMutation_onSuccess u) ! i = cache u ! i)
   \<and> (\<forall>q \<in> set (pageCache (updateReceiptMutation_onSuccess p)).
         prefix [JStr ''receipts''] (queryKey q) \<longrightarrow> isInvalidated q)
   \<and> (\<forall>q \<in> set (pageCache (deleteReceiptMutation_onSuccess p)).
         prefix [JStr ''receipts''] (queryKey q) \<longrightarrow> isInvalidated q)"
proof -
  have c: "cache (verifyMutation_onSuccess u)
             = invalidateQueries [JStr ''receipt-stats'']
                 (invalidateQueries [JStr ''receipts''] (cache u))"
    by (simp add: verifyMutation_onSuccess_def)
  have c1: "\<forall>q \<in> set (cache (verifyMutation_onSuccess u)).
      prefix [JStr ''receipts''] (queryKey q) \<or> prefix [JStr ''receipt-stats''] (queryKey q)
        \<longrightarrow> isInvalidated q"
    unfolding c using invalidate_twice_hit by blast
  have c2: "\<forall>i < length (cache u).
         \<not> prefix [JStr ''receipts''] (queryKey (cache u ! i))
         \<and> \<not> prefix [JStr ''receipt-stats''] (queryKey (cache u ! i))
           \<longrightarrow> cache (verifyMutation_onSuccess u) ! i = cache u ! i"
    unfolding c by (simp add: invalidateQueries_nth invalidateQueries_length)
  have c3: "\<forall>q \<in> set (pageCache (updateReceiptMutation_onSuccess p)).
         prefix [JStr ''receipts''] (queryKey q) \<longrightarrow> isInvalidated q"
    using invalidateQueries_hit by (simp add: updateReceiptMutation_onSuccess_def)
  have c4: "\<forall>q \<in> set (pageCache (deleteReceiptMutation_onSuccess p)).
         prefix [JStr ''receipts''] (queryKey q) \<longrightarrow> isInvalidated q"
    using invalidateQueries_hit by (simp add: deleteReceiptMutation_onSuccess_def)
  show ?thesis
    by (intro conjI c1 c2 c3 c4)
qed

text \<open>The dashboard's cache after a commit.\<close>

theorem commit_update_delete_invalidation_witness:
  "\<lparr>queryKey = [JStr ''receipt-stats'', JStr ''30d''], isInvalidated = True\<rparr>
     \<in> set (cache (verifyMutation_onSuccess (initial_upload\<lparr>cache := dashboard_cache\<rparr>)))
   \<and> prefix [JStr ''receipt-stats''] [JStr ''receipt-stats'', JStr ''30d'']
   \<and> isInvalidated \<lparr>queryKey = [JStr ''receipt-stats'', JStr ''30d''], isInvalidated = True\<rparr>
   \<and> 2 < length (cache (initial_upload\<lparr>cache := dashboard_cache\<rparr>))
   \<and> cache (verifyMutation_onSuccess (initial_upload\<lparr>cache := dashboard_cache\<rparr>)) ! 2
       = dashboard_cache ! 2"
proof -
  let ?u = "initial_upload\<lparr>cache := dashboard_cache\<rparr>"
  let ?q = "\<lparr>queryKey = [JStr ''receipt-stats'', JStr ''30d''], isInvalidated = True\<rparr>"
  note T = commit_update_delete_invalidation [of ?u]
  have m: "?q \<in> set (cache (verifyMutation_onSuccess ?u))"
    unfolding dashboard_after_commit by simp
  have p: "prefix [JStr ''receipt-stats''] [JStr ''receipt-stats'', JStr ''30d'']"
    by simp
  have w1: "isInvalidated ?q"
    using T [THEN conjunct1, rule_format, OF m] p by simp
  have l: "2 < length (cache ?u)"
    by (simp add: dashboard_cache_def)
  have k: "\<not> prefix [JStr ''receipts''] (queryKey (cache ?u ! 2))
         \<and> \<not> prefix [JStr ''receipt-stats''] (queryKey (cache ?u ! 2))"
    by (simp add: dashboard_cache_def)
  have w2: "cache (verifyMutation_onSuccess ?u) ! 2 = dashboard_cache ! 2"
    using T [THEN conjunct2, THEN conjunct1, rule_format, OF l k] by simp
  show ?thesis
    by (intro conjI m p w1 l w2)
qed

text \<open>
  C8 as stated has every aggregate view invalidated after a commit; the analytics query,
  which holds the category breakdown, the merchant ranking and the trend series, is not.
\<close>

theorem analytics_not_invalidated_counterexample:
  "queryKey (cache (verifyMutation_onSuccess (initial_upload\<lparr>cache := dashboard_cache\<rparr>)) ! 2)
     = [JStr ''analytics'', JStr ''30d'']
   \<and> \<not> isInvalidated
         (cache (verifyMutation_onSuccess (initial_upload\<lparr>cache := dashboard_cache\<rparr>)) ! 2)"
  unfolding dashboard_after_commit by simp

section \<open>Numeric edits\<close>

lemma index_get_assign_same: "index_get (assign_index xs i v) i = v"
  by (simp add: index_get_def assign_index_def nth_append)

lemma index_get_assign_other: "j \<noteq> i \<Longrightarrow> index_get (assign_index xs i v) j = index_get xs j"
  by (auto simp: index_get_def assign_index_def nth_append)

lemma index_get_spread:
  "index_get (map (\<lambda>s. Some (case s of None \<Rightarrow> JUndefined | Some v \<Rightarrow> v)) xs) j = index_get xs j"
  by (simp add: index_get_def split: option.splits)

lemma handleItemChange_array:
  assumes "field (editedData m) ''items'' = JArr xs"
  shows "\<exists>m'. handleItemChange i f v m = Inr m'
            \<and> item_prop i f m' = v
            \<and> (\<forall>j k. j \<noteq> i \<longrightarrow> item_prop j k m' = item_prop j k m)
            \<and> (\<forall>k. k \<noteq> ''items'' \<longrightarrow> editedData m' k = editedData m k)"
  using assms
  by (simp add: handleItemChange_def item_prop_def field_def js_prop_def index_get_assign_same
      index_get_assign_other index_get_spread)

lemma NaN_or: "js_or (JNum NaN) b = b"
  by (simp add: js_or_def)

lemma parseFloat_abc: "parseFloat ''abc'' = NaN"
  by (simp add: parseFloat_def unsigned_literal_def is_ws_def is_digit_def)

lemma tea_items:
  "field (editedData tea_modal) ''items''
     = JArr [Some (JObj [''name'' \<mapsto> (JStr ''Tea''), ''quantity'' \<mapsto> (JNum (Fin 2)),
                         ''price'' \<mapsto> (JNum (Fin 40)), ''total'' \<mapsto> (JNum (Fin 80))])]"
  by (simp add: tea_modal_def field_def)

text \<open>
  The detail modal of a persisted receipt stores what \<open>parseFloat\<close> returns: a text that
  is no number leaves NaN in the edited receipt.
\<close>

lemma detail_stores_NaN:
  "parseFloat v = NaN \<Longrightarrow> editedReceipt d = Some r \<Longrightarrow>
     editedReceipt (detail_onChange_totalAmount v d) = Some (r(''totalAmount'' \<mapsto> JNum NaN))"
  by (simp add: detail_onChange_totalAmount_def detail_handleInputChange_def)

text \<open>
  C4, as amended. In the verification modal, a text that \<open>parseFloat\<close> reads as NaN
  stores 0 as the total amount, the tax amount or the price of an item, and stores 1 as
  the quantity of an item; the edit is accepted whatever the text, and changes nothing
  else in the draft.
\<close>

theorem non_numeric_edit_coercion:
  assumes "parseFloat v = NaN"
  shows "field (editedData (onChange_totalAmount v m)) ''totalAmount'' = JNum (Fin 0)
       \<and> field (editedData (onChange_taxAmount v m)) ''taxAmount'' = JNum (Fin 0)
       \<and> (\<forall>k. k \<noteq> ''totalAmount'' \<longrightarrow> editedData (onChange_totalAmount v m) k = editedData m k)
       \<and> (\<forall>k. k \<noteq> ''taxAmount'' \<longrightarrow> editedData (onChange_taxAmount v m) k = editedData m k)
       \<and> (\<forall>xs. field (editedData m) ''items'' = JArr xs \<longrightarrow>
             (\<exists>m'. onChange_item_price i v m = Inr m'
                   \<and> item_prop i ''price'' m' = JNum (Fin 0)
                   \<and> (\<forall>j k. j \<noteq> i \<longrightarrow> item_prop j k m' = item_prop j k m)
                   \<and> (\<forall>k. k \<noteq> ''items'' \<longrightarrow> editedData m' k = editedData m k)))
       \<and> (\<forall>xs. field (editedData m) ''items'' = JArr xs \<longrightarrow>
             (\<exists>m'. onChange_item_quantity i v m = Inr m'
                   \<and> item_prop i ''quantity'' m' = JNum (Fin 1)
                   \<and> (\<forall>j k. j \<noteq> i \<longrightarrow> item_prop j k m' = item_prop j k m)
                   \<and> (\<forall>k. k \<noteq> ''items'' \<longrightarrow> editedData m' k = editedData m k)))"
proof -
  have c1: "field (editedData (onChange_totalAmount v m)) ''totalAmount'' = JNum (Fin 0)"
    by (simp add: onChange_totalAmount_def handleInputChange_def assms NaN_or field_def)
  have c2: "field (editedData (onChange_taxAmount v m)) ''taxAmount'' = JNum (Fin 0)"
    by (simp add: onChange_taxAmount_def handleInputChange_def assms NaN_or field_def)
  have c3: "\<forall>k. k \<noteq> ''totalAmount'' \<longrightarrow> editedData (onChange_totalAmount v m) k = editedData m k"
    by (simp add: onChange_totalAmount_def handleInputChange_def)
  have c4: "\<forall>k. k \<noteq> ''taxAmount'' \<longrightarrow> editedData (onChange_taxAmount v m) k = editedData m k"
    by (simp add: onChange_taxAmount_def handleInputChange_def)
  have c5: "\<forall>xs. field (editedData m) ''items'' = JArr xs \<longrightarrow>
             (\<exists>m'. onChange_item_price i v m = Inr m'
                   \<and> item_prop i ''price'' m' = JNum (Fin 0)
                   \<and> (\<forall>j k. j \<noteq> i \<longrightarrow> item_prop j k m' = item_prop j k m)
                   \<and> (\<forall>k. k \<noteq> ''items'' \<longrightarrow> editedData m' k = editedData m k))"
    unfolding onChange_item_price_def assms NaN_or
    using handleItemChange_array [of m _ i "''price''" "JNum (Fin 0)"] by blast
  have c6: "\<forall>xs. field (editedData m) ''items'' = JArr xs \<longrightarrow>
             (\<exists>m'. onChange_item_quantity i v m = Inr m'
                   \<and> item_prop i ''quantity'' m' = JNum (Fin 1)
                   \<and> (\<forall>j k. j \<noteq> i \<longrightarrow> item_prop j k m' = item_prop j k m)
                   \<and> (\<forall>k. k \<noteq> ''items'' \<longrightarrow> editedData m' k = editedData m k))"
    unfolding onChange_item_quantity_def assms NaN_or
    using handleItemChange_array [of m _ i "''quantity''" "JNum (Fin 1)"] by blast
  show ?thesis
    by (intro conjI c1 c2 c3 c4 c5 c6)
qed

text \<open>The price of the first item, edited to \<open>abc\<close>.\<close>

theorem non_numeric_edit_coercion_witness:
  "parseFloat ''abc'' = NaN
   \<and> item_prop 0 ''price'' tea_modal = JNum (Fin 40)
   \<and> (\<exists>m'. onChange_item_price 0 ''abc'' tea_modal = Inr m'
           \<and> item_prop 0 ''price'' m' = JNum (Fin 0))
   \<and> field (editedData (onChange_totalAmount ''abc'' tea_modal)) ''totalAmount'' = JNum (Fin 0)"
proof -
  note T = non_numeric_edit_coercion [OF parseFloat_abc, of tea_modal 0]
  have w0: "item_prop 0 ''price'' tea_modal = JNum (Fin 40)"
    unfolding item_prop_def tea_items by (simp add: index_get_def js_prop_def field_def)
  have w1: "\<exists>m'. onChange_item_price 0 ''abc'' tea_modal = Inr m'
           \<and> item_prop 0 ''price'' m' = JNum (Fin 0)"
    using T [THEN conjunct2, THEN conjunct2, THEN conjunct2, THEN conjunct2, THEN conjunct1,
             rule_format, OF tea_items]
    by blast
  show ?thesis
    by (intro conjI parseFloat_abc w0 w1 T [THEN conjunct1])
qed

text \<open>
  C4 as stated has every numeric field coerced to 0; the quantity of an item edited to
  \<open>abc\<close> becomes 1.
\<close>

theorem quantity_coerced_to_one_counterexample:
  "parseFloat ''abc'' = NaN
   \<and> \<not> isl (onChange_item_quantity 0 ''abc'' tea_modal)
   \<and> item_prop 0 ''quantity'' (projr (onChange_item_quantity 0 ''abc'' tea_modal)) = JNum (Fin 1)
   \<and> JNum (Fin 1) \<noteq> JNum (Fin 0)"
proof -
  obtain m' where m: "handleItemChange 0 ''quantity'' (JNum (Fin 1)) tea_modal = Inr m'"
    "item_prop 0 ''quantity'' m' = JNum (Fin 1)"
    using handleItemChange_array [OF tea_items, of 0 "''quantity''" "JNum (Fin 1)"] by blast
  have q: "onChange_item_quantity 0 ''abc'' tea_modal = Inr m'"
    by (simp add: onChange_item_quantity_def parseFloat_abc NaN_or m(1))
  show ?thesis
    by (simp add: parseFloat_abc q m(2))
qed

section \<open>Item edits\<close>

lemma item_array_Cons:
  "is_item_array (s # xs) \<longleftrightarrow> (\<exists>m. s = Some (JObj m)) \<and> is_item_array xs"
  by (auto simp: is_item_array_def split: option.splits jsval.splits)

lemma item_array_nth:
  "is_item_array xs \<Longrightarrow> i < length xs \<Longrightarrow> \<exists>m. xs ! i = Some (JObj m)"
  by (induction xs arbitrary: i) (auto simp: item_array_Cons nth_Cons split: nat.splits)

lemma item_array_append:
  "is_item_array (xs @ ys) \<longleftrightarrow> is_item_array xs \<and> is_item_array ys"
  by (simp add: is_item_array_def)

lemma item_array_update:
  "is_item_array xs \<Longrightarrow> is_item_array (xs[i := Some (JObj m)])"
  by (induction xs arbitrary: i) (auto simp: item_array_Cons split: nat.splits)

lemma item_array_take_drop:
  "is_item_array xs \<Longrightarrow> is_item_array (take i xs @ drop (Suc i) xs)"
  by (induction xs arbitrary: i) (auto simp: item_array_Cons is_item_array_def take_Cons split: nat.splits)

lemma item_array_spread:
  "is_item_array xs \<Longrightarrow>
     map (\<lambda>s. Some (case s of None \<Rightarrow> JUndefined | Some v \<Rightarrow> v)) xs = xs"
  by (induction xs) (auto simp: item_array_Cons)

lemma filter_index_before:
  "is_item_array xs \<Longrightarrow> index < n \<Longrightarrow> filter_index n index xs = xs"
  by (induction xs arbitrary: n) (auto simp: item_array_Cons)

lemma filter_index_dense:
  "is_item_array xs \<Longrightarrow> i < length xs \<Longrightarrow>
     filter_index n (n + i) xs = take i xs @ drop (Suc i) xs"
proof (induction xs arbitrary: n i)
  case Nil
  then show ?case by simp
next
  case (Cons s xs)
  then obtain m where s: "s = Some (JObj m)" and r: "is_item_array xs"
    by (auto simp: item_array_Cons)
  show ?case
  proof (cases i)
    case 0
    then show ?thesis
      using filter_index_before [OF r, of n "Suc n"] by (simp add: s)
  next
    case (Suc j)
    then have "j < length xs" using Cons.prems by simp
    from Cons.IH [OF r this, of "Suc n"] show ?thesis
      by (simp add: s Suc)
  qed
qed

lemma items_update: "field (d(''items'' \<mapsto> v)) ''items'' = v"
  by (simp add: field_def)

lemma handleItemChange_item:
  assumes "field (editedData m) ''items'' = JArr xs" and "is_item_array xs"
    and "i < length xs" and "xs ! i = Some (JObj it)"
  shows "handleItemChange i f v m =
           Inr (m\<lparr>editedData := (editedData m)(''items'' \<mapsto>
                  JArr (xs[i := Some (JObj (it(f \<mapsto> v)))]))\<rparr>)"
  using assms
  by (simp add: handleItemChange_def item_array_spread assign_index_def index_get_def)

lemma handleDeleteItem_item:
  assumes "field (editedData m) ''items'' = JArr xs" and "is_item_array xs" and "i < length xs"
  shows "handleDeleteItem i m =
           Inr (m\<lparr>editedData := (editedData m)(''items'' \<mapsto>
                  JArr (take i xs @ drop (Suc i) xs))\<rparr>)"
  using assms filter_index_dense [OF assms(2,3), of 0]
  by (simp add: handleDeleteItem_def)

lemma handleAddItem_item:
  assumes "field (editedData m) ''items'' = JArr xs" and "is_item_array xs"
  shows "handleAddItem m =
           Inr (m\<lparr>editedData := (editedData m)(''items'' \<mapsto>
                  JArr (xs @ [Some (JObj new_item)]))\<rparr>)"
  using assms by (simp add: handleAddItem_def item_array_spread)

lemma unwritten_update:
  "f \<in> W \<Longrightarrow> unwritten W (Some (JObj (it(f \<mapsto> v)))) = unwritten W (Some (JObj it))"
  by (simp add: unwritten_def)

lemma map_unwritten_update:
  assumes "i < length xs" and "xs ! i = Some (JObj it)" and "f \<in> W"
  shows "map (unwritten W) (xs[i := Some (JObj (it(f \<mapsto> v)))]) = map (unwritten W) xs"
proof -
  have "map (unwritten W) (xs[i := Some (JObj (it(f \<mapsto> v)))])
          = (map (unwritten W) xs)[i := unwritten W (Some (JObj (it(f \<mapsto> v))))]"
    by (simp add: map_update)
  also have "\<dots> = (map (unwritten W) xs)[i := map (unwritten W) xs ! i]"
    using assms by (simp add: unwritten_update)
  also have "\<dots> = map (unwritten W) xs"
    by simp
  finally show ?thesis .
qed

lemma subseq_take_drop: "subseq (take i xs @ drop (Suc i) xs) xs"
  by (induction xs arbitrary: i) (auto simp: take_Cons split: nat.splits)

lemma subseq_snoc_cases:
  assumes "subseq zs (as @ [c])"
  shows "subseq zs as \<or> (\<exists>zs'. zs = zs' @ [c] \<and> subseq zs' as)"
proof -
  from assms obtain z1 z2 where z: "zs = z1 @ z2" "subseq z1 as" "subseq z2 [c]"
    unfolding subseq_append_iff by blast
  from z(3) have "length z2 \<le> 1" and "set z2 \<subseteq> {c}"
    using list_emb_length [of "(=)" z2 "[c]"] list_emb_set [of "(=)" z2 "[c]"] by auto
  then have "z2 = [] \<or> z2 = [c]"
    by (cases z2) auto
  then show ?thesis
    using z by auto
qed

lemma apply_ops_gen:
  assumes "field (editedData m) ''items'' = JArr xs" and "is_item_array xs"
    and "in_bounds ops (length xs)" and "written ops \<subseteq> W"
  shows "\<exists>m' ys. apply_ops ops m = Inr m'
           \<and> field (editedData m') ''items'' = JArr ys
           \<and> is_item_array ys
           \<and> int (length ys) = int (length xs) + int (adds ops) - int (removes ops)
           \<and> (\<exists>zs n. map (unwritten W) ys = zs @ replicate n (unwritten W (Some (JObj new_item)))
                      \<and> subseq zs (map (unwritten W) xs))"
  using assms
proof (induction ops arbitrary: m xs)
  case Nil
  have e: "map (unwritten W) xs
             = map (unwritten W) xs @ replicate 0 (unwritten W (Some (JObj new_item)))"
    by simp
  have "\<exists>zs n. map (unwritten W) xs = zs @ replicate n (unwritten W (Some (JObj new_item)))
                      \<and> subseq zs (map (unwritten W) xs)"
    using e by blast
  then show ?case
    using Nil.prems(1,2) by (intro exI [of _ m] exI [of _ xs]) simp
next
  case (Cons x ops)
  let ?c = "unwritten W (Some (JObj new_item))"
  show ?case
  proof (cases x)
    case (SetItemField i f v)
    have i: "i < length xs" and b: "in_bounds ops (length xs)" and fW: "f \<in> W"
      and w: "written ops \<subseteq> W"
      using Cons.prems(3,4) by (simp_all add: SetItemField)
    obtain it where it: "xs ! i = Some (JObj it)"
      using item_array_nth [OF Cons.prems(2) i] by blast
    let ?xs = "xs[i := Some (JObj (it(f \<mapsto> v)))]"
    let ?m = "m\<lparr>editedData := (editedData m)(''items'' \<mapsto> JArr ?xs)\<rparr>"
    have step: "apply_op x m = Inr ?m"
      using handleItemChange_item [OF Cons.prems(1,2) i it] by (simp add: SetItemField)
    have f1: "field (editedData ?m) ''items'' = JArr ?xs"
      by (simp add: items_update)
    have f2: "is_item_array ?xs"
      by (rule item_array_update [OF Cons.prems(2)])
    have f3: "in_bounds ops (length ?xs)"
      using b by simp
    from Cons.IH [OF f1 f2 f3 w] obtain m' ys zs n where r:
      "apply_ops ops ?m = Inr m'" "field (editedData m') ''items'' = JArr ys" "is_item_array ys"
      "int (length ys) = int (length ?xs) + int (adds ops) - int (removes ops)"
      "map (unwritten W) ys = zs @ replicate n ?c" "subseq zs (map (unwritten W) ?xs)"
      by blast
    have s: "subseq zs (map (unwritten W) xs)"
      using r(6) unfolding map_unwritten_update [OF i it fW] .
    have l: "int (length ys) = int (length xs) + int (adds (x # ops)) - int (removes (x # ops))"
      using r(4) by (simp add: SetItemField)
    have a: "apply_ops (x # ops) m = Inr m'"
      by (simp add: step r(1))
    show ?thesis
      using a r(2,3,5) l s by blast
  next
    case (RemoveItem i)
    have i: "i < length xs" and b: "in_bounds ops (length xs - 1)" and w: "written ops \<subseteq> W"
      using Cons.prems(3,4) by (simp_all add: RemoveItem)
    let ?xs = "take i xs @ drop (Suc i) xs"
    let ?m = "m\<lparr>editedData := (editedData m)(''items'' \<mapsto> JArr ?xs)\<rparr>"
    have step: "apply_op x m = Inr ?m"
      using handleDeleteItem_item [OF Cons.prems(1,2) i] by (simp add: RemoveItem)
    have f1: "field (editedData ?m) ''items'' = JArr ?xs"
      by (simp add: items_update)
    have f2: "is_item_array ?xs"
      by (rule item_array_take_drop [OF Cons.prems(2)])
    have len: "length ?xs = length xs - 1"
      using i by simp
    have f3: "in_bounds ops (length ?xs)"
      using b unfolding len .
    from Cons.IH [OF f1 f2 f3 w] obtain m' ys zs n where r:
      "apply_ops ops ?m = Inr m'" "field (editedData m') ''items'' = JArr ys" "is_item_array ys"
      "int (length ys) = int (length ?xs) + int (adds ops) - int (removes ops)"
      "map (unwritten W) ys = zs @ replicate n ?c" "subseq zs (map (unwritten W) ?xs)"
      by blast
    have "subseq (map (unwritten W) ?xs) (map (unwritten W) xs)"
      by (rule subseq_map [OF subseq_take_drop])
    then have s: "subseq zs (map (unwritten W) xs)"
      using r(6) by (rule subseq_order.order_trans [rotated])
    have l: "int (length ys) = int (length xs) + int (adds (x # ops)) - int (removes (x # ops))"
      using r(4) i unfolding len by (simp add: RemoveItem)
    have a: "apply_ops (x # ops) m = Inr m'"
      by (simp add: step r(1))
    show ?thesis
      using a r(2,3,5) l s by blast
  next
    case AddItem
    have b: "in_bounds ops (Suc (length xs))" and w: "written ops \<subseteq> W"
      using Cons.prems(3,4) by (simp_all add: AddItem)
    let ?xs = "xs @ [Some (JObj new_item)]"
    let ?m = "m\<lparr>editedData := (editedData m)(''items'' \<mapsto> JArr ?xs)\<rparr>"
    have step: "apply_op x m = Inr ?m"
      using handleAddItem_item [OF Cons.prems(1,2)] by (simp add: AddItem)
    have f1: "field (editedData ?m) ''items'' = JArr ?xs"
      by (simp add: items_update)
    have f2: "is_item_array ?xs"
      using Cons.prems(2) by (simp add: item_array_append is_item_array_def)
    have f3: "in_bounds ops (length ?xs)"
      using b by simp
    from Cons.IH [OF f1 f2 f3 w] obtain m' ys zs n where r:
      "apply_ops ops ?m = Inr m'" "field (editedData m') ''items'' = JArr ys" "is_item_array ys"
      "int (length ys) = int (length ?xs) + int (adds ops) - int (removes ops)"
      "map (unwritten W) ys = zs @ replicate n ?c" "subseq zs (map (unwritten W) ?xs)"
      by blast
    have "subseq zs (map (unwritten W) xs @ [?c])"
      using r(6) by simp
    then have "subseq zs (map (unwritten W) xs)
                 \<or> (\<exists>zs'. zs = zs' @ [?c] \<and> subseq zs' (map (unwritten W) xs))"
      by (rule subseq_snoc_cases)
    then have s: "\<exists>zs' n'. map (unwritten W) ys = zs' @ replicate n' ?c
                    \<and> subseq zs' (map (unwritten W) xs)"
    proof
      assume "subseq zs (map (unwritten W) xs)"
      then show ?thesis using r(5) by blast
    next
      assume "\<exists>zs'. zs = zs' @ [?c] \<and> subseq zs' (map (unwritten W) xs)"
      then obtain zs' where z: "zs = zs' @ [?c]" "subseq zs' (map (unwritten W) xs)"
        by blast
      have "map (unwritten W) ys = zs' @ replicate (Suc n) ?c"
        unfolding r(5) z(1) by simp
      then show ?thesis using z(2) by blast
    qed
    have l: "int (length ys) = int (length xs) + int (adds (x # ops)) - int (removes (x # ops))"
      using r(4) by (simp add: AddItem)
    have a: "apply_ops (x # ops) m = Inr m'"
      by (simp add: step r(1))
    show ?thesis
      using a r(2,3) l s by blast
  qed
qed

lemma nth_take_drop:
  assumes "i < length xs"
  shows "length (take i xs @ drop (Suc i) xs) = length xs - 1"
    and "\<forall>j < i. (take i xs @ drop (Suc i) xs) ! j = xs ! j"
    and "\<forall>j. i \<le> j \<and> j < length (take i xs @ drop (Suc i) xs) \<longrightarrow>
            (take i xs @ drop (Suc i) xs) ! j = xs ! Suc j"
  using assms by (auto simp: nth_append min_def)

lemma tea_bounds:
  "is_item_array [Some (JObj [''name'' \<mapsto> (JStr ''Tea''), ''quantity'' \<mapsto> (JNum (Fin 2)),
                              ''price'' \<mapsto> (JNum (Fin 40)), ''total'' \<mapsto> (JNum (Fin 80))])]"
  "in_bounds [AddItem, SetItemField 1 ''name'' (JStr ''Scone''), RemoveItem 0] (length [x])"
  by (simp_all add: is_item_array_def)

text \<open>
  Outside the bounds the handlers raise no exception either: a remove takes nothing away,
  and a write extends the list up to its index with holes.
\<close>

lemma filter_index_beyond:
  "is_item_array xs \<Longrightarrow> n + length xs \<le> index \<Longrightarrow> filter_index n index xs = xs"
  by (induction xs arbitrary: n) (auto simp: item_array_Cons)

lemma handleDeleteItem_out_of_range:
  assumes "field (editedData m) ''items'' = JArr xs" and "is_item_array xs"
    and "length xs \<le> i"
  shows "handleDeleteItem i m = Inr (m\<lparr>editedData := (editedData m)(''items'' \<mapsto> JArr xs)\<rparr>)"
  using assms filter_index_beyond [OF assms(2), of 0 i] by (simp add: handleDeleteItem_def)

lemma handleItemChange_out_of_range:
  assumes "field (editedData m) ''items'' = JArr xs" and "is_item_array xs"
    and "length xs \<le> i"
  shows "handleItemChange i f v m =
           Inr (m\<lparr>editedData := (editedData m)(''items'' \<mapsto>
                  JArr (xs @ replicate (i - length xs) None @ [Some (JObj [f \<mapsto> v])]))\<rparr>)"
  using assms
  by (simp add: handleItemChange_def item_array_spread assign_index_def index_get_def)

text \<open>
  C3. On a draft whose items are an array of objects, every sequence of setItemField,
  removeItem and addItem operations whose indices address items present when they run
  goes through without an exception, and afterwards the number of items is the initial
  number plus the adds minus the removes. Apart from the properties that the sequence
  writes, the resulting items are a subsequence of the initial items, in their order,
  followed by new items. A single removeItem at an index yields the items before that
  index unchanged and every later item one index lower, whatever the number of items, so
  that removing the only item leaves the empty list.
\<close>

theorem item_edit_sequences:
  assumes "field (editedData m) ''items'' = JArr xs" and "is_item_array xs"
    and "in_bounds ops (length xs)"
  shows "(\<exists>m' ys. apply_ops ops m = Inr m'
            \<and> field (editedData m') ''items'' = JArr ys
            \<and> int (length ys) = int (length xs) + int (adds ops) - int (removes ops)
            \<and> (\<exists>zs n. map (unwritten (written ops)) ys
                         = zs @ replicate n (unwritten (written ops) (Some (JObj new_item)))
                       \<and> subseq zs (map (unwritten (written ops)) xs)))
       \<and> (\<forall>i < length xs.
             \<exists>m' ys. handleDeleteItem i m = Inr m'
               \<and> field (editedData m') ''items'' = JArr ys
               \<and> length ys = length xs - 1
               \<and> (\<forall>j < i. ys ! j = xs ! j)
               \<and> (\<forall>j. i \<le> j \<and> j < length ys \<longrightarrow> ys ! j = xs ! Suc j))"
proof -
  have seq: "\<exists>m' ys. apply_ops ops m = Inr m'
            \<and> field (editedData m') ''items'' = JArr ys
            \<and> int (length ys) = int (length xs) + int (adds ops) - int (removes ops)
            \<and> (\<exists>zs n. map (unwritten (written ops)) ys
                         = zs @ replicate n (unwritten (written ops) (Some (JObj new_item)))
                       \<and> subseq zs (map (unwritten (written ops)) xs))"
    using apply_ops_gen [OF assms, of "written ops"] by blast
  have one: "\<forall>i < length xs.
             \<exists>m' ys. handleDeleteItem i m = Inr m'
               \<and> field (editedData m') ''items'' = JArr ys
               \<and> length ys = length xs - 1
               \<and> (\<forall>j < i. ys ! j = xs ! j)
               \<and> (\<forall>j. i \<le> j \<and> j < length ys \<longrightarrow> ys ! j = xs ! Suc j)"
  proof (intro allI impI)
    fix i
    assume i: "i < length xs"
    let ?ys = "take i xs @ drop (Suc i) xs"
    let ?m = "m\<lparr>editedData := (editedData m)(''items'' \<mapsto> JArr ?ys)\<rparr>"
    have d: "handleDeleteItem i m = Inr ?m"
      by (rule handleDeleteItem_item [OF assms(1,2) i])
    have f: "field (editedData ?m) ''items'' = JArr ?ys"
      by (simp add: items_update)
    show "\<exists>m' ys. handleDeleteItem i m = Inr m'
               \<and> field (editedData m') ''items'' = JArr ys
               \<and> length ys = length xs - 1
               \<and> (\<forall>j < i. ys ! j = xs ! j)
               \<and> (\<forall>j. i \<le> j \<and> j < length ys \<longrightarrow> ys ! j = xs ! Suc j)"
      using d f nth_take_drop [OF i] by blast
  qed
  show ?thesis
    by (intro conjI seq one)
qed

text \<open>An add, an edit of the added item and a remove on the draft with one item.\<close>

theorem item_edit_sequences_witness:
  "in_bounds [AddItem, SetItemField 1 ''name'' (JStr ''Scone''), RemoveItem 0] 1
   \<and> (\<exists>m' ys. apply_ops [AddItem, SetItemField 1 ''name'' (JStr ''Scone''), RemoveItem 0]
                 tea_modal = Inr m'
             \<and> field (editedData m') ''items'' = JArr ys
             \<and> length ys = 1)
   \<and> (\<exists>m'. handleDeleteItem 0 tea_modal = Inr m' \<and> field (editedData m') ''items'' = JArr [])"
proof -
  let ?ops = "[AddItem, SetItemField 1 ''name'' (JStr ''Scone''), RemoveItem 0]"
  note T = item_edit_sequences [OF tea_items tea_bounds(1) tea_bounds(2)]
  have b: "in_bounds ?ops 1"
    by simp
  have w1: "\<exists>m' ys. apply_ops ?ops tea_modal = Inr m'
             \<and> field (editedData m') ''items'' = JArr ys \<and> length ys = 1"
    using T [THEN conjunct1] by auto
  have w2: "\<exists>m'. handleDeleteItem 0 tea_modal = Inr m' \<and> field (editedData m') ''items'' = JArr []"
    using T [THEN conjunct2, rule_format, of 0] by auto
  show ?thesis
    by (intro conjI b w1 w2)
qed

end
